theory Spec2Isabelle
  imports Main
begin

section \<open>The per-server view (src/main/MattermostView.js)\<close>

text \<open>
  The class \<open>MattermostView\<close> is embedded as a record of its fields together with the part
  of the host it talks to: the pending timeouts, the load promises in flight, the clock and
  the ordered log of every call made to a collaborator. Each method and each callback is a
  function on that record. A handler that dereferences \<open>this.server\<close> after \<open>destroy\<close>
  has set it to null raises a \<open>TypeError\<close> in the source; here it returns \<open>Inl TypeError\<close>,
  and the view is not followed past that point.
\<close>

datatype error = TypeError

datatype status = READY | LOADING | ERROR

text \<open>The values a favicon argument can take: a string, \<open>null\<close> or \<open>undefined\<close>.\<close>

datatype jsval = Undefined | Null | Str string

fun truthy :: "jsval \<Rightarrow> bool" where
  "truthy (Str s) = (s \<noteq> [])"
| "truthy Undefined = False"
| "truthy Null = False"

record server =
  name :: string
  url :: string

text \<open>
  The class takes two constants from \<open>common/utils/constants\<close> and calls
  \<open>urlUtils.parseUrl\<close>; all three are defined in other modules and are parameters
  here. \<open>parseUrl\<close> yields \<open>None\<close> where the call raises.
\<close>

record deps =
  MAX_SERVER_RETRIES :: int
  RELOAD_INTERVAL :: int
  parseUrl :: "string \<Rightarrow> string option"

text \<open>Calls to collaborators, in the order they are made.\<close>

datatype effect =
    LoadURL string
  | LOAD_RETRY string int string string
  | LOAD_SUCCESS string
  | LOAD_FAILED string string string
  | IS_UNREAD jsval string
  | UpdateMentions string nat "bool option"
  | UpdateUnreads string bool
  | ReadyCallBack string
  | RemoveBrowserView
  | ViewDestroy

text \<open>
  Which \<open>.catch\<close> handler a load promise carries: the one attached by \<open>load\<close> or the
  one attached by the timer callback returned by \<open>retry\<close>.
\<close>

datatype origin = ByLoad | ByRetry

record MattermostView =
  server :: "server option"
  window :: bool
  isVisible :: bool
  view :: bool
  retryLoad :: "nat option"
  maxRetries :: int
  status :: status
  usesAsteriskForUnreads :: "bool option"
  faviconMemoize :: "(jsval \<times> bool) list"
  currentFavicon :: jsval
  readyCallBack :: bool
  listening :: bool
  timers :: "(nat \<times> int \<times> string) list"
  nextTimer :: nat
  loading :: "(origin \<times> string) list"
  now :: int
  effects :: "effect list"

text \<open>The constructor. \<open>this.view\<close> is assigned here and nowhere else.\<close>

definition constructor :: "deps \<Rightarrow> server \<Rightarrow> MattermostView" where
  "constructor d srv =
     \<lparr> server = Some srv, window = True, isVisible = False, view = True,
       retryLoad = None, maxRetries = MAX_SERVER_RETRIES d, status = LOADING,
       usesAsteriskForUnreads = None, faviconMemoize = [], currentFavicon = Null,
       readyCallBack = False, listening = False,
       timers = [], nextTimer = 0, loading = [], now = 0, effects = [] \<rparr>"

definition emit :: "effect \<Rightarrow> MattermostView \<Rightarrow> MattermostView" where
  "emit e w = w\<lparr>effects := effects w @ [e]\<rparr>"

text \<open>\<open>setTimeout\<close> hands out a fresh handle; \<open>clearTimeout\<close> of null does nothing.\<close>

definition setTimeout :: "string \<Rightarrow> int \<Rightarrow> MattermostView \<Rightarrow> nat \<times> MattermostView" where
  "setTimeout loadURL delay w =
     (nextTimer w,
      w\<lparr>timers := timers w @ [(nextTimer w, delay, loadURL)], nextTimer := Suc (nextTimer w)\<rparr>)"

definition clearTimeout :: "nat option \<Rightarrow> MattermostView \<Rightarrow> MattermostView" where
  "clearTimeout h w =
     (case h of None \<Rightarrow> w
      | Some i \<Rightarrow> w\<lparr>timers := filter (\<lambda>t. fst t \<noteq> i) (timers w)\<rparr>)"

text \<open>
  The JavaScript \<open>Map\<close> behind \<open>faviconMemoize\<close>. \<open>memo_get\<close> is \<open>has\<close> and
  \<open>get\<close> read together: \<open>None\<close> where \<open>has\<close> is false, the stored value where it
  is true. \<open>memo_set\<close> is \<open>set\<close>.
\<close>

definition memo_get :: "(jsval \<times> bool) list \<Rightarrow> jsval \<Rightarrow> bool option" where
  "memo_get m k = map_of m k"

fun memo_set :: "(jsval \<times> bool) list \<Rightarrow> jsval \<Rightarrow> bool \<Rightarrow> (jsval \<times> bool) list" where
  "memo_set [] k v = [(k, v)]"
| "memo_set ((k', v') # m) k v = (if k' = k then (k, v) # m else (k', v') # memo_set m k v)"

subsection \<open>Title parsing\<close>

text \<open>
  \<open>titleParser = /(\((\d+)\) )?(\*)?/g\<close>, of which only the first match is read. The
  pattern matches at index 0 of every string, so the first match is there: group 2 is the
  digits of a leading \<open>(N) \<close> marker when there is one, group 3 is set when the next
  character is an asterisk.
\<close>

definition isDigit :: "char \<Rightarrow> bool" where
  "isDigit c = (c \<in> set ''0123456789'')"

definition titleParser :: "string \<Rightarrow> string option \<times> bool" where
  "titleParser title =
     (case title of
        [] \<Rightarrow> (None, False)
      | c # r \<Rightarrow>
          if c = CHR ''('' then
            (let ds = takeWhile isDigit r; r2 = dropWhile isDigit r in
             if ds \<noteq> [] \<and> take 2 r2 = '') '' then (Some ds, take 1 (drop 2 r2) = ''*'')
             else (None, False))
          else (None, c = CHR ''*''))"

definition digitValue :: "char \<Rightarrow> nat" where
  "digitValue c = of_char c - 48"

text \<open>
  \<open>parseInt(s, 10)\<close> on a non-empty string of decimal digits. JavaScript numbers are
  doubles, so the source agrees with this exact value up to \<open>2^53\<close>.
\<close>

definition parseInt :: "string \<Rightarrow> nat" where
  "parseInt ds = foldl (\<lambda>n c. 10 * n + digitValue c) 0 ds"

definition handleTitleUpdate :: "string \<Rightarrow> MattermostView \<Rightarrow> error + MattermostView" where
  "handleTitleUpdate title w =
     (let results = titleParser title;
          hasAsterisk = snd results;
          w1 = (if hasAsterisk then w\<lparr>usesAsteriskForUnreads := Some True\<rparr> else w);
          unreads = (if usesAsteriskForUnreads w1 = Some True then Some hasAsterisk else None);
          mentions = (case fst results of None \<Rightarrow> 0 | Some ds \<Rightarrow> parseInt ds)
      in case server w1 of
           None \<Rightarrow> Inl TypeError
         | Some s \<Rightarrow> Inr (emit (UpdateMentions (name s) mentions unreads) w1))"

text \<open>
  The decimal numeral of a number, to state what the leading \<open>(N) \<close> marker of a title
  denotes.
\<close>

definition digitChar :: "nat \<Rightarrow> char" where
  "digitChar k = ''0123456789'' ! k"

fun decimal :: "nat \<Rightarrow> string" where
  "decimal n = (if n < 10 then [digitChar n] else decimal (n div 10) @ [digitChar (n mod 10)])"

declare decimal.simps [simp del]

subsection \<open>Favicon-based detection\<close>

definition findUnreadState :: "jsval \<Rightarrow> MattermostView \<Rightarrow> error + MattermostView" where
  "findUnreadState favicon w =
     (case server w of
        None \<Rightarrow> Inl TypeError
      | Some s \<Rightarrow> Inr (emit (IS_UNREAD favicon (name s)) w))"

definition handleFaviconUpdate :: "string list \<Rightarrow> MattermostView \<Rightarrow> error + MattermostView" where
  "handleFaviconUpdate favicons w =
     (if usesAsteriskForUnreads w \<noteq> Some True then
        (let f = (case favicons of [] \<Rightarrow> Undefined | x # _ \<Rightarrow> Str x);
             w1 = w\<lparr>currentFavicon := f\<rparr>
         in case memo_get (faviconMemoize w1) f of
              Some r \<Rightarrow>
                (case server w1 of
                   None \<Rightarrow> Inl TypeError
                 | Some s \<Rightarrow> Inr (emit (UpdateUnreads (name s) r) w1))
            | None \<Rightarrow> findUnreadState f w1)
      else Inr w)"

definition handleFaviconIsUnread :: "jsval \<Rightarrow> string \<Rightarrow> bool \<Rightarrow> MattermostView \<Rightarrow> MattermostView" where
  "handleFaviconIsUnread favicon serverName result w =
     (case server w of
        None \<Rightarrow> w
      | Some s \<Rightarrow>
          if serverName = name s then
            (let w1 = (if truthy favicon
                       then w\<lparr>faviconMemoize := memo_set (faviconMemoize w) favicon result\<rparr>
                       else w)
             in if favicon = Null \<or> favicon = currentFavicon w1
                then emit (UpdateUnreads serverName result) w1 else w1)
          else w)"

subsection \<open>Loading and retrying\<close>

definition load :: "deps \<Rightarrow> string option \<Rightarrow> MattermostView \<Rightarrow> error + MattermostView" where
  "load d someURL w =
     (let w1 = w\<lparr>retryLoad := None\<rparr> in
      case server w1 of
        None \<Rightarrow> Inl TypeError
      | Some s \<Rightarrow>
          (case (case someURL of None \<Rightarrow> Some (url s) | Some x \<Rightarrow> parseUrl d x) of
             None \<Rightarrow> Inl TypeError
           | Some loadURL \<Rightarrow>
               Inr ((emit (LoadURL loadURL) w1)\<lparr>loading := loading w1 @ [(ByLoad, loadURL)]\<rparr>)))"

text \<open>The timer callback returned by \<open>retry(loadURL)\<close>.\<close>

definition retry :: "string \<Rightarrow> MattermostView \<Rightarrow> MattermostView" where
  "retry loadURL w =
     (if \<not> view w then w
      else (emit (LoadURL loadURL) w)\<lparr>loading := loading w @ [(ByRetry, loadURL)]\<rparr>)"

definition loadRetry :: "deps \<Rightarrow> string \<Rightarrow> string \<Rightarrow> MattermostView \<Rightarrow> error + MattermostView" where
  "loadRetry d loadURL err w =
     (let (h, w1) = setTimeout loadURL (RELOAD_INTERVAL d) w;
          w2 = w1\<lparr>retryLoad := Some h\<rparr>
      in case server w2 of
           None \<Rightarrow> Inl TypeError
         | Some s \<Rightarrow>
             Inr (emit (LOAD_RETRY (name s) (now w2 + RELOAD_INTERVAL d) err loadURL) w2))"

text \<open>
  The \<open>.catch\<close> handler inside \<open>retry\<close>: \<open>if (this.maxRetries-- > 0)\<close> tests the old
  value and decrements in either branch.
\<close>

definition retryCatch :: "deps \<Rightarrow> string \<Rightarrow> string \<Rightarrow> MattermostView \<Rightarrow> error + MattermostView" where
  "retryCatch d loadURL err w =
     (let old = maxRetries w;
          w1 = w\<lparr>maxRetries := old - 1\<rparr>
      in if old > 0 then loadRetry d loadURL err w1
         else (case server w1 of
                 None \<Rightarrow> Inl TypeError
               | Some s \<Rightarrow> Inr ((emit (LOAD_FAILED (name s) err loadURL) w1)\<lparr>status := ERROR\<rparr>)))"

text \<open>
  The callback returned by \<open>loadSuccess(loadURL)\<close>; \<open>title\<close> is what
  \<open>webContents.getTitle()\<close> returns when it runs.
\<close>

definition loadSuccess :: "deps \<Rightarrow> string \<Rightarrow> string \<Rightarrow> MattermostView \<Rightarrow> error + MattermostView" where
  "loadSuccess d loadURL title w =
     (case server w of
        None \<Rightarrow> Inl TypeError
      | Some s \<Rightarrow>
          (let w1 = (emit (LOAD_SUCCESS (name s)) w)\<lparr>maxRetries := MAX_SERVER_RETRIES d\<rparr>;
               r = (if status w1 = LOADING then
                      (case handleTitleUpdate title (w1\<lparr>listening := True\<rparr>) of
                         Inl e \<Rightarrow> Inl e
                       | Inr w2 \<Rightarrow> findUnreadState Null w2)
                    else Inr w1)
           in case r of
                Inl e \<Rightarrow> Inl e
              | Inr w3 \<Rightarrow>
                  (let w4 = w3\<lparr>status := READY\<rparr>
                   in Inr (if readyCallBack w4 then emit (ReadyCallBack (name s)) w4 else w4))))"

definition destroy :: "MattermostView \<Rightarrow> MattermostView" where
  "destroy w =
     (let w1 = (if retryLoad w \<noteq> None then clearTimeout (retryLoad w) w else w);
          w2 = (if window w1 then emit RemoveBrowserView w1 else w1);
          w3 = emit ViewDestroy w2;
          w4 = w3\<lparr>window := False, server := None, isVisible := False\<rparr>
      in clearTimeout (retryLoad w4) w4)"

subsection \<open>Events\<close>

text \<open>
  What can happen to a view: a call of a public method, a load promise settling, a timeout
  firing, and the three observers wired up by the first successful load. A promise or a
  timeout that is not pending cannot settle or fire, and an observer that is not yet
  registered is not called.
\<close>

datatype event =
    Load "string option"
  | Resolved nat string
  | Rejected nat string
  | TimerFired nat
  | PageTitleUpdated string
  | PageFaviconUpdated "string list"
  | UnreadResult jsval string bool
  | Destroy
  | SetReadyCallback
  | ClockAdvanced nat

definition settle :: "nat \<Rightarrow> MattermostView \<Rightarrow> MattermostView" where
  "settle k w = w\<lparr>loading := take k (loading w) @ drop (Suc k) (loading w)\<rparr>"

fun step :: "deps \<Rightarrow> event \<Rightarrow> MattermostView \<Rightarrow> error + MattermostView" where
  "step d (Load someURL) w = load d someURL w"
| "step d (Resolved k title) w =
     (if k < length (loading w)
      then loadSuccess d (snd (loading w ! k)) title (settle k w)
      else Inr w)"
| "step d (Rejected k err) w =
     (if k < length (loading w) then
        (case fst (loading w ! k) of
           ByLoad \<Rightarrow> loadRetry d (snd (loading w ! k)) err (settle k w)
         | ByRetry \<Rightarrow> retryCatch d (snd (loading w ! k)) err (settle k w))
      else Inr w)"
| "step d (TimerFired h) w =
     (case find (\<lambda>t. fst t = h) (timers w) of
        None \<Rightarrow> Inr w
      | Some t \<Rightarrow> Inr (retry (snd (snd t)) (w\<lparr>timers := filter (\<lambda>t. fst t \<noteq> h) (timers w)\<rparr>)))"
| "step d (PageTitleUpdated title) w =
     (if listening w then handleTitleUpdate title w else Inr w)"
| "step d (PageFaviconUpdated favicons) w =
     (if listening w then handleFaviconUpdate favicons w else Inr w)"
| "step d (UnreadResult favicon serverName result) w =
     (if listening w then Inr (handleFaviconIsUnread favicon serverName result w) else Inr w)"
| "step d Destroy w = Inr (destroy w)"
| "step d SetReadyCallback w = Inr (w\<lparr>readyCallBack := True\<rparr>)"
| "step d (ClockAdvanced n) w = Inr (w\<lparr>now := now w + int n\<rparr>)"

fun run :: "deps \<Rightarrow> event list \<Rightarrow> MattermostView \<Rightarrow> error + MattermostView" where
  "run d [] w = Inr w"
| "run d (e # es) w = (case step d e w of Inl x \<Rightarrow> Inl x | Inr w' \<Rightarrow> run d es w')"

section \<open>The new-window policy (handleAppWebContentsCreated)\<close>

text \<open>
  The \<open>new-window\<close> listener and the process-wide \<open>popupWindow\<close> variable. The helpers
  of \<open>common/utils/url\<close> are defined in another module and are a parameter of the
  handler; \<open>parseURL\<close> yields \<open>None\<close> for a result without properties (null or
  undefined), which the handler would dereference unguarded.
\<close>

record parsedURL =
  protocol :: string
  host :: string
  pathname :: string

record urlUtils =
  parseURL :: "string \<Rightarrow> parsedURL option"
  isValidURI :: "string \<Rightarrow> bool"
  getServer :: "parsedURL \<Rightarrow> server list \<Rightarrow> server option"
  isTeamUrl :: "string \<Rightarrow> parsedURL \<Rightarrow> bool \<Rightarrow> bool"
  isAdminUrl :: "string \<Rightarrow> parsedURL \<Rightarrow> bool"
  isPluginUrl :: "string \<Rightarrow> parsedURL \<Rightarrow> bool"
  isManagedResource :: "string \<Rightarrow> parsedURL \<Rightarrow> bool"

text \<open>
  A window of the host. \<open>closed\<close> is the property the handler reads; nothing in the
  source assigns it. \<open>readyPending\<close> holds while the \<open>once('ready-to-show')\<close>
  listener has not run.
\<close>

record BrowserWindow =
  winId :: nat
  closed :: bool
  getURL :: string
  visible :: bool
  readyPending :: bool

datatype action =
    PreventDefault
  | OpenExternal string
  | HandleDialogEvent string string
  | NewBrowserWindow nat
  | Show nat
  | PopupLoadURL nat string "string option"

record app =
  popupWindow :: "nat option"
  windows :: "BrowserWindow list"
  nextWindow :: nat
  teams :: "server list"
  scheme :: "string option"
  platform :: string
  actions :: "action list"

definition act :: "action \<Rightarrow> app \<Rightarrow> app" where
  "act x a = a\<lparr>actions := actions a @ [x]\<rparr>"

definition nixUA :: string where
  "nixUA = ''Mozilla/5.0 (X11; Linux x86_64) AppleWebKit/537.36 (KHTML, like Gecko) Chrome Safari/537.36''"

definition popupUserAgent :: "string \<Rightarrow> string option" where
  "popupUserAgent p =
     (if p = ''darwin'' then Some ''Mozilla/5.0 (Macintosh; Intel Mac OS X 10_14_6) AppleWebKit/537.36 (KHTML, like Gecko) Chrome Safari/537.36''
      else if p = ''win32'' then Some ''Mozilla/5.0 (Windows NT 10.0; Win64; x64) AppleWebKit/537.36 (KHTML, like Gecko) Chrome Safari/537.36''
      else if p \<in> set [''aix'', ''freebsd'', ''linux'', ''openbsd'', ''sunos''] then Some nixUA
      else None)"

text \<open>\<open>/^(\/api\/v[3-4]\/public)*\/files\//\<close> and \<open>/^\/help\//\<close> on a pathname.\<close>

function publicFilesMatch :: "string \<Rightarrow> bool" where
  "publicFilesMatch p =
     (if take 7 p = ''/files/'' then True
      else if take 14 p = ''/api/v3/public'' \<or> take 14 p = ''/api/v4/public''
           then publicFilesMatch (drop 14 p)
      else False)"
  by pat_completeness auto
termination
proof (relation "measure length")
  show "wf (measure length)" by simp
next
  fix p :: string
  assume "take 14 p = ''/api/v3/public'' \<or> take 14 p = ''/api/v4/public''"
  then have "length (take 14 p) = 14"
    by (auto dest: arg_cong [where f = length])
  then have "14 \<le> length p" by simp
  then show "(drop 14 p, p) \<in> measure length" by simp
qed

declare publicFilesMatch.simps [simp del]

definition helpMatch :: "string \<Rightarrow> bool" where
  "helpMatch p = (take 6 p = ''/help/'')"

text \<open>The template literal \<open>`${scheme}:`\<close>; \<open>scheme\<close> starts as null.\<close>

definition schemeProtocol :: "string option \<Rightarrow> string" where
  "schemeProtocol sc = (case sc of None \<Rightarrow> ''null:'' | Some x \<Rightarrow> x @ '':'')"

definition findWindow :: "nat \<Rightarrow> app \<Rightarrow> BrowserWindow option" where
  "findWindow i a = find (\<lambda>b. winId b = i) (windows a)"

text \<open>\<open>new BrowserWindow({... show: false ...})\<close> with its two \<open>once\<close> listeners.\<close>

definition newBrowserWindow :: "app \<Rightarrow> app" where
  "newBrowserWindow a =
     (act (NewBrowserWindow (nextWindow a)) a)
       \<lparr>popupWindow := Some (nextWindow a),
        windows := windows a @
          [\<lparr>winId = nextWindow a, closed = False, getURL = [], visible = False, readyPending = True\<rparr>],
        nextWindow := Suc (nextWindow a)\<rparr>"

text \<open>
  \<open>popupWindow.loadURL(url, options)\<close>: the window is taken to report the requested
  address from \<open>getURL()\<close> until the host navigates it elsewhere.
\<close>

definition popupLoadURL :: "string \<Rightarrow> string option \<Rightarrow> app \<Rightarrow> error + app" where
  "popupLoadURL target ua a =
     (case popupWindow a of
        None \<Rightarrow> Inl TypeError
      | Some i \<Rightarrow>
          (case findWindow i a of
             None \<Rightarrow> Inl TypeError
           | Some b \<Rightarrow>
               Inr ((act (PopupLoadURL i target ua) a)
                      \<lparr>windows := map (\<lambda>x. if winId x = i then x\<lparr>getURL := target\<rparr> else x)
                                     (windows a)\<rparr>)))"

text \<open>\<open>popupWindow && !popupWindow.closed && popupWindow.getURL() === url\<close>.\<close>

definition popupShowing :: "string \<Rightarrow> app \<Rightarrow> error + bool" where
  "popupShowing target a =
     (case popupWindow a of
        None \<Rightarrow> Inr False
      | Some i \<Rightarrow>
          (case findWindow i a of
             None \<Rightarrow> Inl TypeError
           | Some b \<Rightarrow> Inr (\<not> closed b \<and> getURL b = target)))"

text \<open>\<open>!popupWindow || popupWindow.closed\<close>.\<close>

definition popupMissing :: "app \<Rightarrow> bool" where
  "popupMissing a =
     (case popupWindow a of
        None \<Rightarrow> True
      | Some i \<Rightarrow> (case findWindow i a of None \<Rightarrow> False | Some b \<Rightarrow> closed b))"

definition openPopup :: "urlUtils \<Rightarrow> server \<Rightarrow> parsedURL \<Rightarrow> string \<Rightarrow> app \<Rightarrow> error + app" where
  "openPopup u srv p target a =
     (if isPluginUrl u (url srv) p \<or> isManagedResource u (url srv) p then
        (let a1 = (if popupMissing a then newBrowserWindow a else a) in
         if isManagedResource u (url srv) p then popupLoadURL target None a1
         else popupLoadURL target (popupUserAgent (platform a1)) a1)
      else Inr a)"

text \<open>The \<open>new-window\<close> listener; \<open>target\<close> is its \<open>url\<close> argument.\<close>

definition newWindow :: "urlUtils \<Rightarrow> string \<Rightarrow> app \<Rightarrow> error + app" where
  "newWindow u target a =
     (case parseURL u target of
        None \<Rightarrow> Inl TypeError
      | Some p \<Rightarrow>
          if protocol p = ''devtools:'' then Inr a
          else
            (let a1 = act PreventDefault a in
             if \<not> isValidURI u target then Inr a1
             else if protocol p \<noteq> ''http:'' \<and> protocol p \<noteq> ''https:''
                     \<and> protocol p \<noteq> schemeProtocol (scheme a1)
               then Inr (act (HandleDialogEvent (protocol p) target) a1)
             else
               (case getServer u p (teams a1) of
                  None \<Rightarrow> Inr (act (OpenExternal target) a1)
                | Some srv \<Rightarrow>
                    if publicFilesMatch (pathname p) then Inr (act (OpenExternal target) a1)
                    else if helpMatch (pathname p) then Inr (act (OpenExternal target) a1)
                    else if isTeamUrl u (url srv) p True then Inr a1
                    else if isAdminUrl u (url srv) p then Inr a1
                    else
                      (case popupShowing target a1 of
                         Inl e \<Rightarrow> Inl e
                       | Inr True \<Rightarrow> Inr a1
                       | Inr False \<Rightarrow> openPopup u srv p target a1))))"

text \<open>
  What happens to the popup besides requests: its window becomes ready to show, the host
  navigates it, or it is closed.
\<close>

datatype app_event =
    NewWindow string
  | ReadyToShow nat
  | Navigated nat string
  | Closed nat

fun app_step :: "urlUtils \<Rightarrow> app_event \<Rightarrow> app \<Rightarrow> error + app" where
  "app_step u (NewWindow target) a = newWindow u target a"
| "app_step u (ReadyToShow i) a =
     (case findWindow i a of
        None \<Rightarrow> Inr a
      | Some b \<Rightarrow>
          if \<not> readyPending b then Inr a
          else
            (case popupWindow a of
               None \<Rightarrow> Inl TypeError
             | Some j \<Rightarrow>
                 Inr ((act (Show j) a)
                        \<lparr>windows := map (\<lambda>x. if winId x = j then x\<lparr>visible := True\<rparr> else x)
                                       (map (\<lambda>x. if winId x = i then x\<lparr>readyPending := False\<rparr> else x)
                                          (windows a))\<rparr>)))"
| "app_step u (Navigated i target) a =
     Inr (a\<lparr>windows := map (\<lambda>x. if winId x = i then x\<lparr>getURL := target\<rparr> else x) (windows a)\<rparr>)"
| "app_step u (Closed i) a =
     (case findWindow i a of
        None \<Rightarrow> Inr a
      | Some b \<Rightarrow> Inr (a\<lparr>windows := filter (\<lambda>x. winId x \<noteq> i) (windows a), popupWindow := None\<rparr>))"

fun app_run :: "urlUtils \<Rightarrow> app_event list \<Rightarrow> app \<Rightarrow> error + app" where
  "app_run u [] a = Inr a"
| "app_run u (e # es) a = (case app_step u e a of Inl x \<Rightarrow> Inl x | Inr a' \<Rightarrow> app_run u es a')"

text \<open>The process before any popup: \<open>let popupWindow = null\<close>.\<close>

definition app_start :: "server list \<Rightarrow> string option \<Rightarrow> string \<Rightarrow> app" where
  "app_start ts sc pf =
     \<lparr> popupWindow = None, windows = [], nextWindow = 0, teams = ts, scheme = sc, platform = pf,
       actions = [] \<rparr>"

section \<open>Reading the logs\<close>

text \<open>How many unread probes a view has sent to its content surface.\<close>

fun isProbe :: "effect \<Rightarrow> bool" where
  "isProbe (IS_UNREAD favicon serverName) = True"
| "isProbe e = False"

definition probes :: "MattermostView \<Rightarrow> nat" where
  "probes w = length (filter isProbe (effects w))"

text \<open>
  A run of failed retries: the pending timeout fires and the load it issues is rejected,
  \<open>k\<close> times over, the handles being handed out in order from \<open>h\<close>. The two
  counters read the renderer messages off the log.
\<close>

fun retryRounds :: "string \<Rightarrow> nat \<Rightarrow> nat \<Rightarrow> event list" where
  "retryRounds err h 0 = []"
| "retryRounds err h (Suc k) = TimerFired h # Rejected 0 err # retryRounds err (Suc h) k"

fun isTerminal :: "effect \<Rightarrow> bool" where
  "isTerminal (LOAD_FAILED serverName err loadURL) = True"
| "isTerminal e = False"

fun isRetrySignal :: "effect \<Rightarrow> bool" where
  "isRetrySignal (LOAD_RETRY serverName t err loadURL) = True"
| "isRetrySignal e = False"

definition terminalSignals :: "MattermostView \<Rightarrow> nat" where
  "terminalSignals w = length (filter isTerminal (effects w))"

definition retrySignals :: "MattermostView \<Rightarrow> nat" where
  "retrySignals w = length (filter isRetrySignal (effects w))"

text \<open>
  The state of the popup after any history: the variable is null and no popup window is
  open, or it refers to the one popup window that is.
\<close>

definition popupInvariant :: "app \<Rightarrow> bool" where
  "popupInvariant a =
     (case popupWindow a of
        None \<Rightarrow> windows a = []
      | Some i \<Rightarrow> (case windows a of [b] \<Rightarrow> winId b = i \<and> \<not> closed b | _ \<Rightarrow> False))"

section \<open>Concrete inputs\<close>

definition deps_example :: deps where
  "deps_example = \<lparr> MAX_SERVER_RETRIES = 3, RELOAD_INTERVAL = 5000, parseUrl = Some \<rparr>"

definition server_A :: server where
  "server_A = \<lparr> name = ''A'', url = ''https://a.example.com'' \<rparr>"

definition view_A :: MattermostView where
  "view_A = constructor deps_example server_A"

text \<open>
  A stand-in for the helpers of \<open>common/utils/url\<close>, used for the concrete examples
  only: an address is split at \<open>://\<close> and at the first slash after the host, a server
  is found by its origin, and the kind of a page is read off the first path segment.
\<close>

definition splitURL :: "string \<Rightarrow> parsedURL option" where
  "splitURL t =
     (let sch = takeWhile (\<lambda>c. c \<noteq> CHR '':'') t;
          rest = dropWhile (\<lambda>c. c \<noteq> CHR '':'') t
      in if sch = [] \<or> take 3 rest \<noteq> ''://'' then None
         else Some \<lparr> protocol = sch @ '':'',
                     host = takeWhile (\<lambda>c. c \<noteq> CHR ''/'') (drop 3 rest),
                     pathname = dropWhile (\<lambda>c. c \<noteq> CHR ''/'') (drop 3 rest) \<rparr>)"

definition urlUtils_example :: urlUtils where
  "urlUtils_example =
     \<lparr> parseURL = splitURL,
       isValidURI = (\<lambda>t. splitURL t \<noteq> None),
       getServer = (\<lambda>p ts. find (\<lambda>s. url s = protocol p @ ''//'' @ host p) ts),
       isTeamUrl = (\<lambda>b p withApi. take 9 (pathname p) \<noteq> ''/plugins/''
                      \<and> take 9 (pathname p) \<noteq> ''/trusted/''
                      \<and> take 15 (pathname p) \<noteq> ''/admin_console/''),
       isAdminUrl = (\<lambda>b p. take 15 (pathname p) = ''/admin_console/''),
       isPluginUrl = (\<lambda>b p. take 9 (pathname p) = ''/plugins/''),
       isManagedResource = (\<lambda>b p. take 9 (pathname p) = ''/trusted/'') \<rparr>"

definition app_A :: app where
  "app_A = app_start [server_A] (Some ''mattermost'') ''linux''"

definition public_link :: string where
  "public_link = ''https://a.example.com/api/v4/public/files/x''"

definition foreign_link :: string where
  "foreign_link = ''https://b.example.com/x''"

definition ftp_help_link :: string where
  "ftp_help_link = ''ftp://a.example.com/help/x''"

text \<open>Two plugin pages of server A, and the process once the first is showing in the popup.\<close>

definition plugin_link :: string where
  "plugin_link = ''https://a.example.com/plugins/jitsi/x''"

definition other_plugin_link :: string where
  "other_plugin_link = ''https://a.example.com/plugins/zoom/y''"

definition app_A_popup :: app where
  "app_A_popup =
     app_A\<lparr>popupWindow := Some 0,
           windows := [\<lparr>winId = 0, closed = False, getURL = plugin_link, visible = True,
                        readyPending = False\<rparr>],
           nextWindow := 1,
           actions := [PreventDefault, NewBrowserWindow 0,
                       PopupLoadURL 0 plugin_link (Some nixUA), Show 0]\<rparr>"

text \<open>The view after \<open>load()\<close>: one load in flight, issued by \<open>load\<close>.\<close>

definition view_A_loading :: MattermostView where
  "view_A_loading = (emit (LoadURL (url server_A)) view_A)\<lparr>loading := [(ByLoad, url server_A)]\<rparr>"

text \<open>The view once its first load has succeeded on a page titled \<open>Channel\<close>.\<close>

definition view_A_ready :: MattermostView where
  "view_A_ready =
     view_A\<lparr>status := READY, listening := True,
            effects := [LoadURL ''https://a.example.com'', LOAD_SUCCESS ''A'',
                        UpdateMentions ''A'' 0 None, IS_UNREAD Null ''A'']\<rparr>"

section \<open>Retry scheduling\<close>

lemma view_A_loading_load: "load deps_example None view_A = Inr view_A_loading"
  by (simp add: load_def view_A_loading_def view_A_def constructor_def server_A_def emit_def)

lemma loadRetry_Some:
  "server w = Some s \<Longrightarrow> loadRetry d loadURL err w =
     Inr (w\<lparr>timers := timers w @ [(nextTimer w, RELOAD_INTERVAL d, loadURL)],
            nextTimer := Suc (nextTimer w), retryLoad := Some (nextTimer w),
            effects := effects w @ [LOAD_RETRY (name s) (now w + RELOAD_INTERVAL d) err loadURL]\<rparr>)"
  by (simp add: loadRetry_def setTimeout_def emit_def)

text \<open>
  C7. When a load promise of a live view rejects while the retry counter is positive,
  whichever of \<open>load\<close> and \<open>retry\<close> issued it, exactly one timeout is added, with the
  delay \<open>RELOAD_INTERVAL\<close> whatever the counter is, the view keeps its handle, and exactly
  one \<open>LOAD_RETRY\<close> message is sent, carrying the clock reading plus \<open>RELOAD_INTERVAL\<close>.
\<close>

theorem retry_scheduled_at_fixed_interval:
  assumes "server w = Some s" and "k < length (loading w)" and "loading w ! k = (og, loadURL)"
    and "0 < maxRetries w"
  shows "\<exists>w'. step d (Rejected k err) w = Inr w'
           \<and> timers w' = timers w @ [(nextTimer w, RELOAD_INTERVAL d, loadURL)]
           \<and> retryLoad w' = Some (nextTimer w)
           \<and> effects w' = effects w @ [LOAD_RETRY (name s) (now w + RELOAD_INTERVAL d) err loadURL]"
  using assms by (cases og) (simp_all add: loadRetry_Some retryCatch_def settle_def)

theorem retry_scheduled_at_fixed_interval_witness:
  "server view_A_loading = Some server_A \<and> 0 < length (loading view_A_loading)
   \<and> loading view_A_loading ! 0 = (ByLoad, url server_A) \<and> 0 < maxRetries view_A_loading
   \<and> (\<exists>w'. step deps_example (Rejected 0 ''ERR'') view_A_loading = Inr w'
           \<and> timers w' = [(0, 5000, ''https://a.example.com'')]
           \<and> retryLoad w' = Some 0
           \<and> effects w' = [LoadURL ''https://a.example.com'',
                             LOAD_RETRY ''A'' 5000 ''ERR'' ''https://a.example.com''])"
  using retry_scheduled_at_fixed_interval [of view_A_loading server_A 0 ByLoad "url server_A"
      deps_example "''ERR''"]
  by (simp add: view_A_loading_def view_A_def constructor_def deps_example_def server_A_def emit_def)

section \<open>Results of unread probes\<close>

text \<open>
  C10. \<open>handleFaviconIsUnread\<close> leaves the view as it is, memo and published state
  included, when the view holds no server or the event names another server, in particular
  on every view that \<open>destroy\<close> has been called on; so whenever it changes the memo or
  publishes, the view holds a server and the event carries that server's name.
\<close>

theorem unread_result_only_for_own_server:
  "((\<forall>s. server w = Some s \<longrightarrow> serverName \<noteq> name s) \<longrightarrow>
      handleFaviconIsUnread favicon serverName result w = w)
   \<and> handleFaviconIsUnread favicon serverName result (destroy w) = destroy w
   \<and> (faviconMemoize (handleFaviconIsUnread favicon serverName result w) \<noteq> faviconMemoize w
        \<or> effects (handleFaviconIsUnread favicon serverName result w) \<noteq> effects w
      \<longrightarrow> (\<exists>s. server w = Some s \<and> serverName = name s))"
  by (auto simp: handleFaviconIsUnread_def destroy_def clearTimeout_def emit_def Let_def
      split: option.splits)

theorem unread_result_only_for_own_server_witness:
  "server view_A = Some server_A \<and> ''B'' \<noteq> name server_A
   \<and> handleFaviconIsUnread (Str ''f.png'') ''B'' True view_A = view_A
   \<and> handleFaviconIsUnread (Str ''f.png'') ''A'' True (destroy view_A) = destroy view_A
   \<and> faviconMemoize (handleFaviconIsUnread (Str ''f.png'') ''A'' True view_A) \<noteq> faviconMemoize view_A
   \<and> (\<exists>s. server view_A = Some s \<and> ''A'' = name s)"
  using unread_result_only_for_own_server [of view_A "''B''" "Str ''f.png''" True]
    unread_result_only_for_own_server [of view_A "''A''" "Str ''f.png''" True]
  by (simp add: view_A_def constructor_def server_A_def handleFaviconIsUnread_def)

section \<open>Title updates\<close>

lemma below_ten: "k < 10 \<Longrightarrow> k \<in> {0, 1, 2, 3, 4, 5, 6, 7, 8, 9 :: nat}"
  by auto

lemma digitValue_digitChar: "k < 10 \<Longrightarrow> digitValue (digitChar k) = k"
  by (drule below_ten) (auto simp: digitValue_def digitChar_def)

lemma isDigit_digitChar: "k < 10 \<Longrightarrow> isDigit (digitChar k)"
  unfolding isDigit_def digitChar_def by (rule nth_mem) simp

lemma parseInt_snoc: "parseInt (ds @ [c]) = 10 * parseInt ds + digitValue c"
  by (simp add: parseInt_def)

lemma parseInt_decimal: "parseInt (decimal n) = n"
proof (induction n rule: decimal.induct)
  case (1 n)
  show ?case
  proof (cases "n < 10")
    case True
    then show ?thesis
      by (subst decimal.simps) (simp add: parseInt_def digitValue_digitChar)
  next
    case False
    then show ?thesis
      using 1 by (subst decimal.simps) (simp add: parseInt_snoc digitValue_digitChar)
  qed
qed

lemma decimal_digits: "c \<in> set (decimal n) \<Longrightarrow> isDigit c"
proof (induction n rule: decimal.induct)
  case (1 n)
  then show ?case
    by (subst (asm) (2) decimal.simps) (auto simp: isDigit_digitChar split: if_splits)
qed

lemma decimal_nonempty: "decimal n \<noteq> []"
  by (subst decimal.simps) simp

lemma decimal_length: "0 < k \<Longrightarrow> n < 10 ^ k \<Longrightarrow> length (decimal n) \<le> k"
proof (induction n arbitrary: k rule: decimal.induct)
  case (1 n)
  show ?case
  proof (cases "n < 10")
    case True
    then show ?thesis using 1(2) by (subst decimal.simps) simp
  next
    case False
    obtain j where k: "k = Suc j" using 1(2) by (cases k) auto
    have "j \<noteq> 0" using False 1(3) k by (cases j) auto
    moreover have "n div 10 < 10 ^ j" using 1(3) k by (simp add: less_mult_imp_div_less mult.commute)
    ultimately have "length (decimal (n div 10)) \<le> j" using 1(1)[OF False, of j] by simp
    then show ?thesis using False k by (subst decimal.simps) simp
  qed
qed

lemma titleParser_marker:
  assumes "ds \<noteq> []" and "\<forall>c\<in>set ds. isDigit c"
  shows "titleParser (''('' @ ds @ '') '' @ rest) = (Some ds, take 1 rest = ''*'')"
proof -
  have nd: "\<not> isDigit CHR '')''" by (simp add: isDigit_def)
  have t: "takeWhile isDigit (ds @ '') '' @ rest) = ds"
    using assms(2) nd by (simp add: takeWhile_append2)
  have dr: "dropWhile isDigit (ds @ '') '' @ rest) = '') '' @ rest"
    using assms(2) nd by (simp add: dropWhile_append2)
  show ?thesis
    using assms(1) t dr by (simp add: titleParser_def Let_def)
qed

lemma titleParser_Some:
  assumes "fst (titleParser title) = Some ds"
  shows "\<exists>rest. ds \<noteq> [] \<and> (\<forall>c\<in>set ds. isDigit c) \<and> title = ''('' @ ds @ '') '' @ rest"
proof -
  obtain c r where title: "title = c # r"
    using assms by (cases title) (auto simp: titleParser_def)
  have c: "c = CHR ''(''"
    using assms title by (auto simp: titleParser_def split: if_splits)
  let ?ds = "takeWhile isDigit r" and ?r2 = "dropWhile isDigit r"
  have cond: "?ds \<noteq> [] \<and> take 2 ?r2 = '') ''" and ds: "ds = ?ds"
    using assms title c by (auto simp: titleParser_def Let_def split: if_splits)
  have "r = ?ds @ ?r2" by simp
  moreover have "?r2 = take 2 ?r2 @ drop 2 ?r2" by simp
  ultimately have "r = ds @ '') '' @ drop 2 ?r2" using cond ds by metis
  moreover have "\<forall>c\<in>set ds. isDigit c" using ds by (auto dest: set_takeWhileD)
  ultimately show ?thesis using title c cond ds by auto
qed

lemma handleTitleUpdate_Some:
  "server w = Some s \<Longrightarrow>
   handleTitleUpdate title w =
     Inr ((if snd (titleParser title) then w\<lparr>usesAsteriskForUnreads := Some True\<rparr> else w)
           \<lparr>effects := effects w @
              [UpdateMentions (name s)
                 (case fst (titleParser title) of None \<Rightarrow> 0 | Some ds \<Rightarrow> parseInt ds)
                 (if snd (titleParser title) \<or> usesAsteriskForUnreads w = Some True
                  then Some (snd (titleParser title)) else None)]\<rparr>)"
  by (auto simp: handleTitleUpdate_def Let_def emit_def)

lemma tp1: "titleParser ''(3) *Channel'' = (Some ''3'', True)"
  by (simp add: titleParser_def isDigit_def)
lemma tp2: "titleParser ''Channel'' = (None, False)"
  by (simp add: titleParser_def)
lemma pi3: "parseInt ''3'' = 3"
  by (simp add: parseInt_def digitValue_def)

text \<open>
  C4. On a live view the title \<open>(3) *Channel\<close> publishes 3 mentions with unreads true
  and establishes the asterisk mode, and a following title \<open>Channel\<close> publishes 0
  mentions with unreads false. In general a title that begins with an opening parenthesis,
  a non-empty run of at most 15 decimal digits, a closing parenthesis and a space publishes
  the number those digits denote (for the numeral of \<open>n\<close>, the number \<open>n\<close>), and
  a title that does not begin so publishes 0 mentions.
\<close>

theorem title_update_publishes_mentions:
  assumes "server w = Some s"
  shows "(\<exists>w1 w2. handleTitleUpdate ''(3) *Channel'' w = Inr w1
            \<and> effects w1 = effects w @ [UpdateMentions (name s) 3 (Some True)]
            \<and> usesAsteriskForUnreads w1 = Some True
            \<and> handleTitleUpdate ''Channel'' w1 = Inr w2
            \<and> effects w2 = effects w1 @ [UpdateMentions (name s) 0 (Some False)])
      \<and> (ds \<noteq> [] \<and> (\<forall>c\<in>set ds. isDigit c) \<and> length ds \<le> 15 \<longrightarrow>
           (\<exists>w' u. handleTitleUpdate (''('' @ ds @ '') '' @ rest) w = Inr w'
              \<and> effects w' = effects w @ [UpdateMentions (name s) (parseInt ds) u]))
      \<and> (n < 10 ^ 15 \<longrightarrow>
           (\<exists>w' u. handleTitleUpdate (''('' @ decimal n @ '') '' @ rest) w = Inr w'
              \<and> effects w' = effects w @ [UpdateMentions (name s) n u]))
      \<and> ((\<nexists>ds' rest'. ds' \<noteq> [] \<and> (\<forall>c\<in>set ds'. isDigit c) \<and> title = ''('' @ ds' @ '') '' @ rest') \<longrightarrow>
           (\<exists>w' u. handleTitleUpdate title w = Inr w'
              \<and> effects w' = effects w @ [UpdateMentions (name s) 0 u]))"
proof (intro conjI impI)
  show "\<exists>w1 w2. handleTitleUpdate ''(3) *Channel'' w = Inr w1
            \<and> effects w1 = effects w @ [UpdateMentions (name s) 3 (Some True)]
            \<and> usesAsteriskForUnreads w1 = Some True
            \<and> handleTitleUpdate ''Channel'' w1 = Inr w2
            \<and> effects w2 = effects w1 @ [UpdateMentions (name s) 0 (Some False)]"
    using assms by (simp add: handleTitleUpdate_Some tp1 tp2 pi3)
next
  assume "ds \<noteq> [] \<and> (\<forall>c\<in>set ds. isDigit c) \<and> length ds \<le> 15"
  then show "\<exists>w' u. handleTitleUpdate (''('' @ ds @ '') '' @ rest) w = Inr w'
              \<and> effects w' = effects w @ [UpdateMentions (name s) (parseInt ds) u]"
    using assms titleParser_marker [of ds rest] by (simp add: handleTitleUpdate_Some)
next
  assume "n < 10 ^ 15"
  show "\<exists>w' u. handleTitleUpdate (''('' @ decimal n @ '') '' @ rest) w = Inr w'
              \<and> effects w' = effects w @ [UpdateMentions (name s) n u]"
    using assms titleParser_marker [of "decimal n" rest] decimal_nonempty [of n]
      decimal_digits [of _ n]
    by (simp add: handleTitleUpdate_Some parseInt_decimal)
next
  assume "\<nexists>ds' rest'. ds' \<noteq> [] \<and> (\<forall>c\<in>set ds'. isDigit c) \<and> title = ''('' @ ds' @ '') '' @ rest'"
  then have "fst (titleParser title) = None"
    using titleParser_Some [of title] by (cases "fst (titleParser title)") auto
  then show "\<exists>w' u. handleTitleUpdate title w = Inr w'
              \<and> effects w' = effects w @ [UpdateMentions (name s) 0 u]"
    using assms by (simp add: handleTitleUpdate_Some)
qed

theorem title_update_publishes_mentions_witness:
  "server view_A = Some server_A
   \<and> (\<exists>w1 w2. handleTitleUpdate ''(3) *Channel'' view_A = Inr w1
          \<and> effects w1 = [UpdateMentions ''A'' 3 (Some True)]
          \<and> usesAsteriskForUnreads w1 = Some True
          \<and> handleTitleUpdate ''Channel'' w1 = Inr w2
          \<and> effects w2 = effects w1 @ [UpdateMentions ''A'' 0 (Some False)])
   \<and> list_all isDigit ''12''
   \<and> (\<exists>w' u. handleTitleUpdate ''(12) Town Square'' view_A = Inr w'
          \<and> effects w' = [UpdateMentions ''A'' 12 u])
   \<and> (7 :: nat) < 10 ^ 15
   \<and> (\<exists>w' u. handleTitleUpdate ''(7) Town Square'' view_A = Inr w'
          \<and> effects w' = [UpdateMentions ''A'' 7 u])
   \<and> (\<nexists>ds' rest'. ds' \<noteq> [] \<and> (\<forall>c\<in>set ds'. isDigit c)
          \<and> ''Channel'' = ''('' @ ds' @ '') '' @ rest')
   \<and> (\<exists>w' u. handleTitleUpdate ''Channel'' view_A = Inr w'
          \<and> effects w' = [UpdateMentions ''A'' 0 u])"
  using title_update_publishes_mentions [of view_A server_A "''12''" "''Town Square''" 7 "''Channel''"]
  by (simp add: view_A_def constructor_def server_A_def parseInt_def digitValue_def isDigit_def
      decimal.simps digitChar_def)

section \<open>Detection mode\<close>

lemma flag_load: "load d someURL w = Inr w' \<Longrightarrow> usesAsteriskForUnreads w' = usesAsteriskForUnreads w"
  by (auto simp: load_def emit_def Let_def split: option.splits)

lemma flag_loadRetry: "loadRetry d loadURL err w = Inr w' \<Longrightarrow> usesAsteriskForUnreads w' = usesAsteriskForUnreads w"
  by (auto simp: loadRetry_def setTimeout_def emit_def Let_def split: option.splits)

lemma flag_retryCatch: "retryCatch d loadURL err w = Inr w' \<Longrightarrow> usesAsteriskForUnreads w' = usesAsteriskForUnreads w"
  by (auto simp: retryCatch_def emit_def Let_def dest: flag_loadRetry split: option.splits if_splits)

lemma flag_retry: "usesAsteriskForUnreads (retry loadURL w) = usesAsteriskForUnreads w"
  by (simp add: retry_def emit_def)

lemma flag_findUnreadState: "findUnreadState f w = Inr w' \<Longrightarrow> usesAsteriskForUnreads w' = usesAsteriskForUnreads w"
  by (auto simp: findUnreadState_def emit_def split: option.splits)

lemma flag_handleTitleUpdate:
  "handleTitleUpdate title w = Inr w' \<Longrightarrow>
   usesAsteriskForUnreads w' = (if snd (titleParser title) then Some True else usesAsteriskForUnreads w)"
  by (auto simp: handleTitleUpdate_def emit_def Let_def split: option.splits if_splits)

lemma flag_handleFaviconUpdate: "handleFaviconUpdate favicons w = Inr w' \<Longrightarrow> usesAsteriskForUnreads w' = usesAsteriskForUnreads w"
  by (auto simp: handleFaviconUpdate_def findUnreadState_def emit_def Let_def split: option.splits if_splits)

lemma flag_handleFaviconIsUnread: "usesAsteriskForUnreads (handleFaviconIsUnread f sn r w) = usesAsteriskForUnreads w"
  by (auto simp: handleFaviconIsUnread_def emit_def Let_def split: option.splits)

lemma flag_destroy: "usesAsteriskForUnreads (destroy w) = usesAsteriskForUnreads w"
  by (simp add: destroy_def clearTimeout_def emit_def Let_def split: option.splits)

lemma flag_loadSuccess:
  assumes "loadSuccess d loadURL title w = Inr w'" and "usesAsteriskForUnreads w = Some True"
  shows "usesAsteriskForUnreads w' = Some True"
proof -
  obtain s where s: "server w = Some s"
    using assms(1) by (cases "server w") (auto simp: loadSuccess_def)
  let ?w1 = "(emit (LOAD_SUCCESS (name s)) w)\<lparr>maxRetries := MAX_SERVER_RETRIES d\<rparr>"
  show ?thesis
  proof (cases "status w = LOADING")
    case True
    then obtain w2 w3 where w2: "handleTitleUpdate title (?w1\<lparr>listening := True\<rparr>) = Inr w2"
      and w3: "findUnreadState Null w2 = Inr w3"
      and w': "usesAsteriskForUnreads w' = usesAsteriskForUnreads w3"
      using assms(1) s
      by (auto simp: loadSuccess_def Let_def emit_def split: sum.splits if_splits)
    have "usesAsteriskForUnreads w2 = Some True"
      using flag_handleTitleUpdate [OF w2] assms(2) by (simp add: emit_def)
    then show ?thesis using flag_findUnreadState [OF w3] w' by simp
  next
    case False
    then show ?thesis
      using assms s by (auto simp: loadSuccess_def Let_def emit_def split: if_splits)
  qed
qed

lemma flag_step:
  assumes "step d e w = Inr w'" and "usesAsteriskForUnreads w = Some True"
  shows "usesAsteriskForUnreads w' = Some True"
proof (cases e)
  case (Load x)
  then show ?thesis using assms flag_load by auto
next
  case (Resolved k title)
  then show ?thesis
    using assms flag_loadSuccess [of d "snd (loading w ! k)" title "settle k w" w']
    by (auto simp: settle_def split: if_splits)
next
  case (Rejected k err)
  then show ?thesis
    using assms flag_loadRetry [of d "snd (loading w ! k)" err "settle k w" w']
      flag_retryCatch [of d "snd (loading w ! k)" err "settle k w" w']
    by (auto simp: settle_def split: if_splits origin.splits)
next
  case (TimerFired h)
  then show ?thesis using assms by (auto simp: flag_retry split: option.splits)
next
  case (PageTitleUpdated title)
  then show ?thesis using assms flag_handleTitleUpdate [of title w w'] by (auto split: if_splits)
next
  case (PageFaviconUpdated fs)
  then show ?thesis using assms flag_handleFaviconUpdate [of fs w w'] by (auto split: if_splits)
next
  case (UnreadResult f sn r)
  then show ?thesis using assms by (auto simp: flag_handleFaviconIsUnread split: if_splits)
next
  case Destroy
  then show ?thesis using assms by (auto simp: flag_destroy)
next
  case SetReadyCallback
  then show ?thesis using assms by auto
next
  case (ClockAdvanced n)
  then show ?thesis using assms by auto
qed

lemma flag_run:
  "run d evs w = Inr w' \<Longrightarrow> usesAsteriskForUnreads w = Some True \<Longrightarrow> usesAsteriskForUnreads w' = Some True"
proof (induction evs arbitrary: w)
  case Nil
  then show ?case by simp
next
  case (Cons e evs)
  then obtain w1 where "step d e w = Inr w1" and "run d evs w1 = Inr w'"
    by (auto split: sum.splits)
  then show ?case using Cons flag_step by blast
qed

lemma faviconUpdate_ignored:
  "usesAsteriskForUnreads w = Some True \<Longrightarrow> handleFaviconUpdate favicons w = Inr w"
  by (simp add: handleFaviconUpdate_def)

lemma titleParser_asterisk:
  "title = ''*'' @ rest \<or> (ds \<noteq> [] \<and> (\<forall>c\<in>set ds. isDigit c) \<and> title = ''('' @ ds @ '') *'' @ rest)
   \<Longrightarrow> snd (titleParser title)"
proof (erule disjE)
  assume "title = ''*'' @ rest"
  then show ?thesis by (simp add: titleParser_def)
next
  assume a: "ds \<noteq> [] \<and> (\<forall>c\<in>set ds. isDigit c) \<and> title = ''('' @ ds @ '') *'' @ rest"
  have nd: "\<not> isDigit CHR '')''" by (simp add: isDigit_def)
  have "takeWhile isDigit (ds @ '') *'' @ rest) = ds"
    and "dropWhile isDigit (ds @ '') *'' @ rest) = '') *'' @ rest"
    using a nd by (simp_all add: takeWhile_append2 dropWhile_append2)
  then show ?thesis using a by (simp add: titleParser_def Let_def)
qed

lemma view_A_ready_run: "run deps_example [Load None, Resolved 0 ''Channel''] view_A = Inr view_A_ready"
  by (simp add: view_A_ready_def view_A_def constructor_def deps_example_def server_A_def
      load_def loadSuccess_def settle_def emit_def handleTitleUpdate_def titleParser_def
      findUnreadState_def Let_def)

text \<open>
  C3, as the code has it. Once a live view has handled a title whose asterisk marker is
  present (the title begins with an asterisk, or with a \<open>(N) \<close> marker followed by
  one), \<open>usesAsteriskForUnreads\<close> is true and stays true through every later sequence
  of events, and every favicon-update event from then on leaves the view and everything it
  has published unchanged.
\<close>

theorem asterisk_mode_is_permanent:
  assumes "server w = Some s"
    and "title = ''*'' @ rest \<or> (ds \<noteq> [] \<and> (\<forall>c\<in>set ds. isDigit c) \<and> title = ''('' @ ds @ '') *'' @ rest)"
  shows "\<exists>w1. handleTitleUpdate title w = Inr w1 \<and> usesAsteriskForUnreads w1 = Some True
           \<and> (\<forall>evs w2. run d evs w1 = Inr w2 \<longrightarrow>
                 usesAsteriskForUnreads w2 = Some True
                 \<and> (\<forall>favicons. handleFaviconUpdate favicons w2 = Inr w2
                       \<and> step d (PageFaviconUpdated favicons) w2 = Inr w2))"
proof -
  have a: "snd (titleParser title)" using assms(2) by (rule titleParser_asterisk)
  obtain w1 where w1: "handleTitleUpdate title w = Inr w1"
    using handleTitleUpdate_Some [OF assms(1)] by blast
  have f1: "usesAsteriskForUnreads w1 = Some True"
    using flag_handleTitleUpdate [OF w1] a by simp
  have "usesAsteriskForUnreads w2 = Some True
        \<and> (\<forall>favicons. handleFaviconUpdate favicons w2 = Inr w2
              \<and> step d (PageFaviconUpdated favicons) w2 = Inr w2)"
    if "run d evs w1 = Inr w2" for evs w2
    using flag_run [OF that f1] by (simp add: faviconUpdate_ignored)
  then show ?thesis using w1 f1 by blast
qed

theorem asterisk_mode_is_permanent_witness:
  "server view_A_ready = Some server_A
   \<and> (\<exists>w1 w2. handleTitleUpdate ''(3) *Channel'' view_A_ready = Inr w1
          \<and> usesAsteriskForUnreads w1 = Some True
          \<and> run deps_example
               [PageTitleUpdated ''Channel'', UnreadResult (Str ''f.png'') ''A'' True, Load None] w1 = Inr w2
          \<and> usesAsteriskForUnreads w2 = Some True
          \<and> handleFaviconUpdate [''f.png''] w2 = Inr w2
          \<and> step deps_example (PageFaviconUpdated [''f.png'']) w2 = Inr w2)"
proof -
  let ?evs = "[PageTitleUpdated ''Channel'', UnreadResult (Str ''f.png'') ''A'' True, Load None]"
  have s: "server view_A_ready = Some server_A"
    by (simp add: view_A_ready_def view_A_def constructor_def)
  have t: "''(3) *Channel'' = ''*'' @ ''Channel''
      \<or> (''3'' \<noteq> [] \<and> (\<forall>c\<in>set ''3''. isDigit c) \<and> ''(3) *Channel'' = ''('' @ ''3'' @ '') *'' @ ''Channel'')"
    by (simp add: isDigit_def)
  obtain w1 where w1: "handleTitleUpdate ''(3) *Channel'' view_A_ready = Inr w1"
    and f1: "usesAsteriskForUnreads w1 = Some True"
    and inv: "\<forall>evs w2. run deps_example evs w1 = Inr w2 \<longrightarrow>
                 usesAsteriskForUnreads w2 = Some True
                 \<and> (\<forall>favicons. handleFaviconUpdate favicons w2 = Inr w2
                       \<and> step deps_example (PageFaviconUpdated favicons) w2 = Inr w2)"
    using asterisk_mode_is_permanent [OF s t, of deps_example] by blast
  have "\<exists>w2. run deps_example ?evs (projr (handleTitleUpdate ''(3) *Channel'' view_A_ready)) = Inr w2"
    by (simp add: view_A_ready_def view_A_def constructor_def deps_example_def server_A_def
        emit_def handleTitleUpdate_def titleParser_def isDigit_def handleFaviconIsUnread_def
        load_def Let_def)
  then obtain w2 where w2: "run deps_example ?evs w1 = Inr w2"
    using w1 by auto
  show ?thesis using s w1 f1 w2 inv by blast
qed

text \<open>
  C3 as stated also covers a title whose marker is absent. There it fails: after the title
  \<open>Channel\<close> the flag is still null, the next favicon update sends a probe, and a
  later favicon update publishes the memoized unread state.
\<close>

theorem absent_marker_leaves_mode_open:
  "(case run deps_example
           [PageTitleUpdated ''Channel'', PageFaviconUpdated [''f.png''],
            UnreadResult (Str ''f.png'') ''A'' True, PageFaviconUpdated [''g.png''],
            PageFaviconUpdated [''f.png'']] view_A_ready of
      Inl e \<Rightarrow> False
    | Inr w \<Rightarrow> usesAsteriskForUnreads w = None
        \<and> drop 4 (effects w) =
            [UpdateMentions ''A'' 0 None, IS_UNREAD (Str ''f.png'') ''A'', UpdateUnreads ''A'' True,
             IS_UNREAD (Str ''g.png'') ''A'', UpdateUnreads ''A'' True])"
  by (simp add: view_A_ready_def view_A_def constructor_def deps_example_def server_A_def
      emit_def handleTitleUpdate_def titleParser_def handleFaviconUpdate_def
      handleFaviconIsUnread_def memo_get_def
      findUnreadState_def Let_def)

section \<open>Favicon memo\<close>

lemma map_of_memo_set: "map_of (memo_set m k v) k' = (if k' = k then Some v else map_of m k')"
  by (induction m k v rule: memo_set.induct) auto

lemma handleFaviconUpdate_Some:
  assumes "server w = Some s" and "usesAsteriskForUnreads w \<noteq> Some True"
  shows "handleFaviconUpdate (f # fs) w =
     Inr (case map_of (faviconMemoize w) (Str f) of
            None \<Rightarrow> emit (IS_UNREAD (Str f) (name s)) (w\<lparr>currentFavicon := Str f\<rparr>)
          | Some r \<Rightarrow> emit (UpdateUnreads (name s) r) (w\<lparr>currentFavicon := Str f\<rparr>))"
  using assms
  by (auto simp: handleFaviconUpdate_def findUnreadState_def memo_get_def Let_def split: option.splits)

lemma handleFaviconIsUnread_own:
  assumes "server w = Some s" and "f \<noteq> []" and "currentFavicon w = Str f"
  shows "handleFaviconIsUnread (Str f) (name s) r w =
     emit (UpdateUnreads (name s) r) (w\<lparr>faviconMemoize := memo_set (faviconMemoize w) (Str f) r\<rparr>)"
  using assms by (simp add: handleFaviconIsUnread_def Let_def)

text \<open>
  C5, as the code has it. On a live view and for a non-empty favicon string: when the
  result of a probe for that favicon, addressed to this view's server, is handled between
  two favicon-update events carrying it, the two events issue at most one probe between
  them, and unless the asterisk mode is established the second one publishes the memoized
  result and probes nothing. A result for a null favicon addressed to this server is
  published and leaves the memo as it was.
\<close>

theorem favicon_memo_serves_second_lookup:
  assumes "server w = Some s" and "f \<noteq> []"
  shows "(\<exists>w1 w3. handleFaviconUpdate (f # fs) w = Inr w1
            \<and> handleFaviconUpdate (f # fs') (handleFaviconIsUnread (Str f) (name s) r w1) = Inr w3
            \<and> probes w3 \<le> probes w + 1
            \<and> (usesAsteriskForUnreads w \<noteq> Some True \<longrightarrow>
                  effects w3 = effects (handleFaviconIsUnread (Str f) (name s) r w1)
                                 @ [UpdateUnreads (name s) r]))
       \<and> handleFaviconIsUnread Null (name s) r w = emit (UpdateUnreads (name s) r) w
       \<and> faviconMemoize (handleFaviconIsUnread Null (name s) r w) = faviconMemoize w"
proof (intro conjI)
  show "\<exists>w1 w3. handleFaviconUpdate (f # fs) w = Inr w1
            \<and> handleFaviconUpdate (f # fs') (handleFaviconIsUnread (Str f) (name s) r w1) = Inr w3
            \<and> probes w3 \<le> probes w + 1
            \<and> (usesAsteriskForUnreads w \<noteq> Some True \<longrightarrow>
                  effects w3 = effects (handleFaviconIsUnread (Str f) (name s) r w1)
                                 @ [UpdateUnreads (name s) r])"
  proof (cases "usesAsteriskForUnreads w = Some True")
    case True
    have 1: "handleFaviconUpdate (f # fs) w = Inr w"
      using True by (simp add: handleFaviconUpdate_def)
    let ?w2 = "handleFaviconIsUnread (Str f) (name s) r w"
    have "usesAsteriskForUnreads ?w2 = Some True"
      using True by (simp add: flag_handleFaviconIsUnread)
    then have 2: "handleFaviconUpdate (f # fs') ?w2 = Inr ?w2"
      by (simp add: handleFaviconUpdate_def)
    have "probes ?w2 = probes w"
      using assms(1) by (simp add: probes_def handleFaviconIsUnread_def emit_def Let_def)
    then show ?thesis using 1 2 True by simp
  next
    case False
    define w1 where "w1 =
      (case map_of (faviconMemoize w) (Str f) of
         None \<Rightarrow> emit (IS_UNREAD (Str f) (name s)) (w\<lparr>currentFavicon := Str f\<rparr>)
       | Some r' \<Rightarrow> emit (UpdateUnreads (name s) r') (w\<lparr>currentFavicon := Str f\<rparr>))"
    have w1: "handleFaviconUpdate (f # fs) w = Inr w1"
      unfolding w1_def using handleFaviconUpdate_Some [OF assms(1) False] .
    have s1: "server w1 = Some s" and c1: "currentFavicon w1 = Str f"
      and u1: "usesAsteriskForUnreads w1 = usesAsteriskForUnreads w"
      and p1: "probes w1 \<le> probes w + 1"
      using assms(1) by (simp_all add: w1_def emit_def probes_def split: option.splits)
    let ?w2 = "handleFaviconIsUnread (Str f) (name s) r w1"
    have w2: "?w2 = emit (UpdateUnreads (name s) r)
                      (w1\<lparr>faviconMemoize := memo_set (faviconMemoize w1) (Str f) r\<rparr>)"
      using handleFaviconIsUnread_own [OF s1 assms(2) c1] .
    have s2: "server ?w2 = Some s" and u2: "usesAsteriskForUnreads ?w2 \<noteq> Some True"
      and m2: "map_of (faviconMemoize ?w2) (Str f) = Some r" and p2: "probes ?w2 = probes w1"
      using s1 u1 False by (simp_all add: w2 emit_def map_of_memo_set probes_def)
    have w3: "handleFaviconUpdate (f # fs') ?w2 = Inr (emit (UpdateUnreads (name s) r) (?w2\<lparr>currentFavicon := Str f\<rparr>))"
      using handleFaviconUpdate_Some [OF s2 u2, of f fs'] m2 by simp
    have "probes (emit (UpdateUnreads (name s) r) (?w2\<lparr>currentFavicon := Str f\<rparr>)) = probes ?w2"
      by (simp add: probes_def emit_def)
    then show ?thesis using w1 w3 p1 p2 by (simp add: emit_def)
  qed
next
  show "handleFaviconIsUnread Null (name s) r w = emit (UpdateUnreads (name s) r) w"
    using assms(1) by (simp add: handleFaviconIsUnread_def)
  then show "faviconMemoize (handleFaviconIsUnread Null (name s) r w) = faviconMemoize w"
    by (simp add: emit_def)
qed

theorem favicon_memo_serves_second_lookup_witness:
  "server view_A_ready = Some server_A
   \<and> (\<exists>w1 w3. handleFaviconUpdate [''f.png''] view_A_ready = Inr w1
          \<and> handleFaviconUpdate [''f.png''] (handleFaviconIsUnread (Str ''f.png'') ''A'' True w1) = Inr w3
          \<and> probes w3 \<le> probes view_A_ready + 1
          \<and> usesAsteriskForUnreads view_A_ready \<noteq> Some True
          \<and> effects w3 = effects (handleFaviconIsUnread (Str ''f.png'') ''A'' True w1)
                            @ [UpdateUnreads ''A'' True])
   \<and> handleFaviconIsUnread Null ''A'' True view_A_ready = emit (UpdateUnreads ''A'' True) view_A_ready
   \<and> faviconMemoize (handleFaviconIsUnread Null ''A'' True view_A_ready) = []"
  using favicon_memo_serves_second_lookup [of view_A_ready server_A "''f.png''" "[]" "[]" True]
  by (auto simp: view_A_ready_def view_A_def constructor_def server_A_def emit_def)

text \<open>
  C5 as stated has no result between the two events. There it fails: the memo is filled
  only when a result arrives, so two favicon updates in a row with the same favicon send
  two probes.
\<close>

theorem repeated_favicon_probes_twice:
  "(case run deps_example [PageFaviconUpdated [''f.png''], PageFaviconUpdated [''f.png'']] view_A_ready of
      Inl e \<Rightarrow> False
    | Inr w \<Rightarrow> faviconMemoize w = []
        \<and> drop 4 (effects w) = [IS_UNREAD (Str ''f.png'') ''A'', IS_UNREAD (Str ''f.png'') ''A''])"
  by (simp add: view_A_ready_def view_A_def constructor_def deps_example_def server_A_def
      emit_def handleFaviconUpdate_def memo_get_def findUnreadState_def Let_def)

section \<open>Loading\<close>

text \<open>
  C1 has \<open>load()\<close> cancel a pending retry, so that it never fires, and reset the retry
  counter. The code does neither. After two failures one retry is pending, its handle
  in \<open>retryLoad\<close>, and the counter is 2 of 3. \<open>load()\<close> then sets \<open>retryLoad\<close>
  to null without \<open>clearTimeout\<close>, which \<open>destroy\<close> calls on the same handle: the
  timeout is still pending and the counter still 2. When the timeout fires, the retry
  issues a load of its own beside the one \<open>load()\<close> issued.
\<close>

theorem load_leaves_retry_pending:
  "(case run deps_example [Load None, Rejected 0 ''ERR'', TimerFired 0, Rejected 0 ''ERR''] view_A of
      Inl e \<Rightarrow> False
    | Inr w \<Rightarrow> retryLoad w = Some 1 \<and> timers w = [(1, 5000, ''https://a.example.com'')]
        \<and> maxRetries w = 2)
   \<and> (case run deps_example
             [Load None, Rejected 0 ''ERR'', TimerFired 0, Rejected 0 ''ERR'', Load None] view_A of
        Inl e \<Rightarrow> False
      | Inr w \<Rightarrow> retryLoad w = None \<and> timers w = [(1, 5000, ''https://a.example.com'')]
          \<and> maxRetries w = 2 \<and> MAX_SERVER_RETRIES deps_example = 3
          \<and> loading w = [(ByLoad, ''https://a.example.com'')])
   \<and> (case run deps_example
             [Load None, Rejected 0 ''ERR'', TimerFired 0, Rejected 0 ''ERR'', Load None,
              TimerFired 1] view_A of
        Inl e \<Rightarrow> False
      | Inr w \<Rightarrow> timers w = []
          \<and> loading w = [(ByLoad, ''https://a.example.com''), (ByRetry, ''https://a.example.com'')]
          \<and> drop 4 (effects w) = [LoadURL ''https://a.example.com'', LoadURL ''https://a.example.com''])"
  by (simp add: view_A_def constructor_def deps_example_def server_A_def
      load_def emit_def settle_def loadRetry_def setTimeout_def retry_def retryCatch_def Let_def)

section \<open>Exhausting the retries\<close>

lemma run_append:
  "run d (xs @ ys) w = (case run d xs w of Inl e \<Rightarrow> Inl e | Inr w1 \<Rightarrow> run d ys w1)"
  by (induction xs arbitrary: w) (auto split: sum.splits)

lemma round_more:
  assumes "server w = Some s" and "view w" and "timers w = [(h, dly, u)]" and "loading w = []"
    and "0 < maxRetries w"
  shows "run d [TimerFired h, Rejected 0 err] w =
     Inr (w\<lparr>timers := [(nextTimer w, RELOAD_INTERVAL d, u)], nextTimer := Suc (nextTimer w),
            retryLoad := Some (nextTimer w), maxRetries := maxRetries w - 1,
            effects := effects w @ [LoadURL u, LOAD_RETRY (name s) (now w + RELOAD_INTERVAL d) err u]\<rparr>)"
  using assms
  by (simp add: retry_def emit_def settle_def retryCatch_def loadRetry_def setTimeout_def Let_def)

lemma round_last:
  assumes "server w = Some s" and "view w" and "timers w = [(h, dly, u)]" and "loading w = []"
    and "maxRetries w \<le> 0"
  shows "run d [TimerFired h, Rejected 0 err] w =
     Inr (w\<lparr>timers := [], maxRetries := maxRetries w - 1, status := ERROR,
            effects := effects w @ [LoadURL u, LOAD_FAILED (name s) err u]\<rparr>)"
  using assms
  by (simp add: retry_def emit_def settle_def retryCatch_def Let_def)

lemma rounds_exhaust:
  assumes "server w = Some s" and "view w" and "timers w = [(h, dly, u)]" and "nextTimer w = Suc h"
    and "loading w = []" and "maxRetries w = int m"
  shows "\<exists>w'. run d (retryRounds err h (Suc m)) w = Inr w' \<and> status w' = ERROR
           \<and> timers w' = [] \<and> loading w' = [] \<and> maxRetries w' = - 1
           \<and> terminalSignals w' = terminalSignals w + 1
           \<and> retrySignals w' = retrySignals w + m"
  using assms
proof (induction m arbitrary: w h dly)
  case 0
  have "run d (retryRounds err h (Suc 0)) w = run d [TimerFired h, Rejected 0 err] w"
    by simp
  also have "\<dots> = Inr (w\<lparr>timers := [], maxRetries := maxRetries w - 1, status := ERROR,
            effects := effects w @ [LoadURL u, LOAD_FAILED (name s) err u]\<rparr>)"
    using 0 by (intro round_last) simp_all
  finally show ?case
    using 0 by (simp add: terminalSignals_def retrySignals_def)
next
  case (Suc m)
  let ?w1 = "w\<lparr>timers := [(nextTimer w, RELOAD_INTERVAL d, u)], nextTimer := Suc (nextTimer w),
            retryLoad := Some (nextTimer w), maxRetries := maxRetries w - 1,
            effects := effects w @ [LoadURL u, LOAD_RETRY (name s) (now w + RELOAD_INTERVAL d) err u]\<rparr>"
  have r1: "run d [TimerFired h, Rejected 0 err] w = Inr ?w1"
    using Suc.prems by (intro round_more) simp_all
  have "\<exists>w'. run d (retryRounds err (Suc h) (Suc m)) ?w1 = Inr w' \<and> status w' = ERROR
           \<and> timers w' = [] \<and> loading w' = [] \<and> maxRetries w' = - 1
           \<and> terminalSignals w' = terminalSignals ?w1 + 1
           \<and> retrySignals w' = retrySignals ?w1 + m"
    using Suc.prems by (intro Suc.IH [where dly = "RELOAD_INTERVAL d"]) simp_all
  then obtain w' where w': "run d (retryRounds err (Suc h) (Suc m)) ?w1 = Inr w'"
    and rest: "status w' = ERROR" "timers w' = []" "loading w' = []" "maxRetries w' = - 1"
      "terminalSignals w' = terminalSignals ?w1 + 1" "retrySignals w' = retrySignals ?w1 + m"
    by blast
  have "retryRounds err h (Suc (Suc m)) = [TimerFired h, Rejected 0 err] @ retryRounds err (Suc h) (Suc m)"
    by simp
  then have "run d (retryRounds err h (Suc (Suc m))) w = Inr w'"
    using r1 w' by (simp only: run_append sum.case)
  moreover have "terminalSignals ?w1 = terminalSignals w" "retrySignals ?w1 = retrySignals w + 1"
    by (simp_all add: terminalSignals_def retrySignals_def)
  ultimately show ?case using rest by simp
qed

lemma rounds_pending:
  assumes "server w = Some s" and "view w" and "timers w = [(h, dly, u)]" and "nextTimer w = Suc h"
    and "loading w = []" and "maxRetries w = int m" and "k \<le> m"
  shows "\<exists>w' dly'. run d (retryRounds err h k) w = Inr w' \<and> status w' = status w
           \<and> timers w' = [(h + k, dly', u)] \<and> maxRetries w' = int m - int k
           \<and> terminalSignals w' = terminalSignals w"
  using assms
proof (induction k arbitrary: w h dly m)
  case 0
  then show ?case by simp
next
  case (Suc k)
  then obtain m' where m': "m = Suc m'" by (cases m) auto
  let ?w1 = "w\<lparr>timers := [(nextTimer w, RELOAD_INTERVAL d, u)], nextTimer := Suc (nextTimer w),
            retryLoad := Some (nextTimer w), maxRetries := maxRetries w - 1,
            effects := effects w @ [LoadURL u, LOAD_RETRY (name s) (now w + RELOAD_INTERVAL d) err u]\<rparr>"
  have r1: "run d [TimerFired h, Rejected 0 err] w = Inr ?w1"
    using Suc.prems m' by (intro round_more) simp_all
  have "\<exists>w' dly'. run d (retryRounds err (Suc h) k) ?w1 = Inr w' \<and> status w' = status ?w1
           \<and> timers w' = [(Suc h + k, dly', u)] \<and> maxRetries w' = int m' - int k
           \<and> terminalSignals w' = terminalSignals ?w1"
    using Suc.prems m' by (intro Suc.IH [where dly = "RELOAD_INTERVAL d"]) simp_all
  then obtain w' dly' where w': "run d (retryRounds err (Suc h) k) ?w1 = Inr w'"
    and rest: "status w' = status ?w1" "timers w' = [(Suc h + k, dly', u)]"
      "maxRetries w' = int m' - int k" "terminalSignals w' = terminalSignals ?w1"
    by blast
  have "retryRounds err h (Suc k) = [TimerFired h, Rejected 0 err] @ retryRounds err (Suc h) k"
    by simp
  then have "run d (retryRounds err h (Suc k)) w = Inr w'"
    using r1 w' by (simp only: run_append sum.case)
  moreover have "terminalSignals ?w1 = terminalSignals w"
    by (simp add: terminalSignals_def)
  ultimately show ?case using rest m' by simp
qed

lemma first_failure:
  "run d [Load None, Rejected 0 err] (constructor d srv) =
     Inr ((constructor d srv)
            \<lparr>timers := [(0, RELOAD_INTERVAL d, url srv)], nextTimer := Suc 0, retryLoad := Some 0,
             effects := [LoadURL (url srv), LOAD_RETRY (name srv) (RELOAD_INTERVAL d) err (url srv)]\<rparr>)"
  by (simp add: constructor_def load_def emit_def settle_def loadRetry_def setTimeout_def Let_def)

text \<open>
  C2, as the code has it. With \<open>MAX_SERVER_RETRIES = n\<close>, when the first load of a new
  view and then each of the \<open>n + 1\<close> retries fail, the status is \<open>ERROR\<close>, exactly
  one \<open>LOAD_FAILED\<close> has been sent after \<open>n + 1\<close> \<open>LOAD_RETRY\<close> messages, no timeout
  and no load is left pending, and the counter, decremented by the last failure too, is
  \<open>-1\<close>. After only \<open>k \<le> n\<close> failed retries the status is still \<open>LOADING\<close>, one
  timeout is pending and the counter is \<open>n - k\<close>.
\<close>

theorem retries_exhausted:
  assumes "MAX_SERVER_RETRIES d = int n"
  shows "(\<exists>w'. run d ([Load None, Rejected 0 err] @ retryRounds err 0 (Suc n)) (constructor d srv) = Inr w'
            \<and> status w' = ERROR \<and> terminalSignals w' = 1 \<and> retrySignals w' = Suc n
            \<and> timers w' = [] \<and> loading w' = [] \<and> maxRetries w' = - 1)
       \<and> (k \<le> n \<longrightarrow>
           (\<exists>w' dly. run d ([Load None, Rejected 0 err] @ retryRounds err 0 k) (constructor d srv) = Inr w'
              \<and> status w' = LOADING \<and> terminalSignals w' = 0
              \<and> timers w' = [(k, dly, url srv)] \<and> maxRetries w' = int n - int k))"
proof (intro conjI impI)
  let ?w0 = "(constructor d srv)
            \<lparr>timers := [(0, RELOAD_INTERVAL d, url srv)], nextTimer := Suc 0, retryLoad := Some 0,
             effects := [LoadURL (url srv), LOAD_RETRY (name srv) (RELOAD_INTERVAL d) err (url srv)]\<rparr>"
  have pre: "server ?w0 = Some srv" "view ?w0" "timers ?w0 = [(0, RELOAD_INTERVAL d, url srv)]"
    "nextTimer ?w0 = Suc 0" "loading ?w0 = []" "maxRetries ?w0 = int n"
    "terminalSignals ?w0 = 0" "retrySignals ?w0 = 1" "status ?w0 = LOADING"
    using assms by (simp_all add: constructor_def terminalSignals_def retrySignals_def)
  from rounds_exhaust [OF pre(1-6), of d err]
  show "\<exists>w'. run d ([Load None, Rejected 0 err] @ retryRounds err 0 (Suc n)) (constructor d srv) = Inr w'
            \<and> status w' = ERROR \<and> terminalSignals w' = 1 \<and> retrySignals w' = Suc n
            \<and> timers w' = [] \<and> loading w' = [] \<and> maxRetries w' = - 1"
    using pre(7,8) by (simp only: run_append first_failure sum.case) auto
  assume "k \<le> n"
  from rounds_pending [OF pre(1-6) this, of d err]
  show "\<exists>w' dly. run d ([Load None, Rejected 0 err] @ retryRounds err 0 k) (constructor d srv) = Inr w'
              \<and> status w' = LOADING \<and> terminalSignals w' = 0
              \<and> timers w' = [(k, dly, url srv)] \<and> maxRetries w' = int n - int k"
    using pre(7,9) by (simp only: run_append first_failure sum.case) auto
qed

theorem retries_exhausted_witness:
  "MAX_SERVER_RETRIES deps_example = int 3
   \<and> (\<exists>w'. run deps_example ([Load None, Rejected 0 ''ERR''] @ retryRounds ''ERR'' 0 (Suc 3)) view_A = Inr w'
          \<and> status w' = ERROR \<and> terminalSignals w' = 1 \<and> retrySignals w' = Suc 3
          \<and> timers w' = [] \<and> loading w' = [] \<and> maxRetries w' = - 1)
   \<and> (2 :: nat) \<le> 3
   \<and> (\<exists>w' dly. run deps_example ([Load None, Rejected 0 ''ERR''] @ retryRounds ''ERR'' 0 2) view_A = Inr w'
          \<and> status w' = LOADING \<and> terminalSignals w' = 0
          \<and> timers w' = [(2, dly, url server_A)] \<and> maxRetries w' = int 3 - int 2)"
  using retries_exhausted [of deps_example 3 "''ERR''" server_A 2]
  by (simp add: deps_example_def view_A_def)

text \<open>
  C2 as stated keeps the counter from going below zero. With the maximum at 3 it is
  \<open>-1\<close> when the status becomes \<open>ERROR\<close>, and \<open>-2\<close> after one more failed retry,
  which sends a second \<open>LOAD_FAILED\<close>.
\<close>

theorem counter_goes_below_zero:
  "(case run deps_example
           [Load None, Rejected 0 ''ERR'', TimerFired 0, Rejected 0 ''ERR'',
            TimerFired 1, Rejected 0 ''ERR'', TimerFired 2, Rejected 0 ''ERR'',
            TimerFired 3, Rejected 0 ''ERR''] view_A of
      Inl e \<Rightarrow> False
    | Inr w \<Rightarrow> status w = ERROR \<and> maxRetries w = - 1 \<and> timers w = [] \<and> loading w = []
        \<and> terminalSignals w = 1)
   \<and> (case run deps_example
             [Load None, Rejected 0 ''ERR'', TimerFired 0, Rejected 0 ''ERR'',
              TimerFired 1, Rejected 0 ''ERR'', TimerFired 2, Rejected 0 ''ERR'',
              TimerFired 3, Rejected 0 ''ERR'',
              Load None, Rejected 0 ''ERR'', TimerFired 4, Rejected 0 ''ERR''] view_A of
        Inl e \<Rightarrow> False
      | Inr w \<Rightarrow> status w = ERROR \<and> maxRetries w = - 2 \<and> terminalSignals w = 2)"
  by (simp add: view_A_def constructor_def deps_example_def server_A_def terminalSignals_def
      load_def emit_def settle_def loadRetry_def setTimeout_def retry_def retryCatch_def Let_def)

section \<open>Links opened in the system browser\<close>

lemma publicFilesMatch_files: "publicFilesMatch (''/files/'' @ rest)"
  by (subst publicFilesMatch.simps) simp

lemma publicFilesMatch_api:
  "publicFilesMatch rest \<Longrightarrow> publicFilesMatch (''/api/v4/public'' @ rest)"
  "publicFilesMatch rest \<Longrightarrow> publicFilesMatch (''/api/v3/public'' @ rest)"
  by (subst publicFilesMatch.simps, simp)+

lemma helpMatch_help: "helpMatch (''/help/'' @ rest)"
  by (simp add: helpMatch_def)

lemma publicFilesMatch_iff:
  "publicFilesMatch p \<longleftrightarrow>
     (\<exists>xs rest. set xs \<subseteq> {''/api/v3/public'', ''/api/v4/public''} \<and> p = concat xs @ ''/files/'' @ rest)"
proof
  show "publicFilesMatch p \<Longrightarrow>
     \<exists>xs rest. set xs \<subseteq> {''/api/v3/public'', ''/api/v4/public''} \<and> p = concat xs @ ''/files/'' @ rest"
  proof (induction p rule: publicFilesMatch.induct)
    case (1 p)
    show ?case
    proof (cases "take 7 p = ''/files/''")
      case True
      then have "p = concat [] @ ''/files/'' @ drop 7 p"
        by (metis append_take_drop_id concat.simps(1) append_Nil)
      then show ?thesis by (metis empty_set empty_subsetI)
    next
      case False
      then have api: "take 14 p = ''/api/v3/public'' \<or> take 14 p = ''/api/v4/public''"
        and rec: "publicFilesMatch (drop 14 p)"
        using "1.prems" by (subst (asm) publicFilesMatch.simps, simp split: if_splits)+
      from "1.IH" [OF False api rec] obtain xs rest
        where xs: "set xs \<subseteq> {''/api/v3/public'', ''/api/v4/public''}"
          and d: "drop 14 p = concat xs @ ''/files/'' @ rest" by blast
      have "p = take 14 p @ drop 14 p" by simp
      then have "p = concat (take 14 p # xs) @ ''/files/'' @ rest"
        using d by (metis append.assoc concat.simps(2))
      moreover have "set (take 14 p # xs) \<subseteq> {''/api/v3/public'', ''/api/v4/public''}"
        using xs api by auto
      ultimately show ?thesis by blast
    qed
  qed
next
  assume "\<exists>xs rest. set xs \<subseteq> {''/api/v3/public'', ''/api/v4/public''} \<and> p = concat xs @ ''/files/'' @ rest"
  then obtain xs rest where xs: "set xs \<subseteq> {''/api/v3/public'', ''/api/v4/public''}"
    and p: "p = concat xs @ ''/files/'' @ rest" by blast
  have "publicFilesMatch (concat xs @ ''/files/'' @ rest)"
    using xs
  proof (induction xs)
    case Nil
    then show ?case using publicFilesMatch_files [of rest] by simp
  next
    case (Cons x xs)
    then have "publicFilesMatch (concat xs @ ''/files/'' @ rest)" by simp
    moreover have "x = ''/api/v3/public'' \<or> x = ''/api/v4/public''" using Cons.prems by simp
    ultimately show ?case
      using publicFilesMatch_api [of "concat xs @ ''/files/'' @ rest"] by auto
  qed
  then show "publicFilesMatch p" using p by simp
qed

lemma split_public_link:
  "splitURL public_link = Some \<lparr>protocol = ''https:'', host = ''a.example.com'', pathname = ''/api/v4/public/files/x''\<rparr>"
  by (simp add: splitURL_def public_link_def)

lemma split_foreign_link:
  "splitURL foreign_link = Some \<lparr>protocol = ''https:'', host = ''b.example.com'', pathname = ''/x''\<rparr>"
  by (simp add: splitURL_def foreign_link_def)

lemma split_ftp_help_link:
  "splitURL ftp_help_link = Some \<lparr>protocol = ''ftp:'', host = ''a.example.com'', pathname = ''/help/x''\<rparr>"
  by (simp add: splitURL_def ftp_help_link_def)

text \<open>
  C8, as the code has it. A new-window request that gets as far as the server lookup (its
  address parses, is not a \<open>devtools:\<close> one, is a valid URI and has the protocol
  \<open>http:\<close>, \<open>https:\<close> or the application's own) is answered by
  \<open>preventDefault\<close> and \<open>shell.openExternal\<close> and by nothing else, the popup
  untouched, whenever no server is found for it or its pathname matches the public-files
  or the help pattern, whether or not a server is found. The pathnames
  \<open>/api/v4/public/files/...\<close>, \<open>/api/v3/public/files/...\<close>, \<open>/files/...\<close> and
  \<open>/help/...\<close> match.
\<close>

theorem public_and_help_links_open_externally:
  assumes "parseURL u target = Some p" and "protocol p \<noteq> ''devtools:''" and "isValidURI u target"
    and "protocol p = ''http:'' \<or> protocol p = ''https:'' \<or> protocol p = schemeProtocol (scheme a)"
  shows "(getServer u p (teams a) = None \<or> publicFilesMatch (pathname p) \<or> helpMatch (pathname p) \<longrightarrow>
           newWindow u target a = Inr (a\<lparr>actions := actions a @ [PreventDefault, OpenExternal target]\<rparr>))
       \<and> publicFilesMatch (''/api/v4/public/files/'' @ rest)
       \<and> publicFilesMatch (''/api/v3/public/files/'' @ rest)
       \<and> publicFilesMatch (''/files/'' @ rest)
       \<and> helpMatch (''/help/'' @ rest)"
proof (intro conjI impI)
  assume "getServer u p (teams a) = None \<or> publicFilesMatch (pathname p) \<or> helpMatch (pathname p)"
  then show "newWindow u target a = Inr (a\<lparr>actions := actions a @ [PreventDefault, OpenExternal target]\<rparr>)"
    using assms unfolding newWindow_def
    by (auto simp: act_def Let_def split: option.splits)
next
  show "publicFilesMatch (''/api/v4/public/files/'' @ rest)"
    using publicFilesMatch_api(1) [OF publicFilesMatch_files, of rest] by simp
  show "publicFilesMatch (''/api/v3/public/files/'' @ rest)"
    using publicFilesMatch_api(2) [OF publicFilesMatch_files, of rest] by simp
  show "publicFilesMatch (''/files/'' @ rest)" by (rule publicFilesMatch_files)
  show "helpMatch (''/help/'' @ rest)" by (rule helpMatch_help)
qed

theorem public_and_help_links_open_externally_witness:
  "parseURL urlUtils_example public_link =
     Some \<lparr>protocol = ''https:'', host = ''a.example.com'', pathname = ''/api/v4/public/files/x''\<rparr>
   \<and> isValidURI urlUtils_example public_link
   \<and> getServer urlUtils_example
        \<lparr>protocol = ''https:'', host = ''a.example.com'', pathname = ''/api/v4/public/files/x''\<rparr>
        (teams app_A) = Some server_A
   \<and> publicFilesMatch ''/api/v4/public/files/x''
   \<and> newWindow urlUtils_example public_link app_A =
       Inr (app_A\<lparr>actions := [PreventDefault, OpenExternal public_link]\<rparr>)
   \<and> parseURL urlUtils_example foreign_link =
       Some \<lparr>protocol = ''https:'', host = ''b.example.com'', pathname = ''/x''\<rparr>
   \<and> isValidURI urlUtils_example foreign_link
   \<and> getServer urlUtils_example \<lparr>protocol = ''https:'', host = ''b.example.com'', pathname = ''/x''\<rparr>
        (teams app_A) = None
   \<and> newWindow urlUtils_example foreign_link app_A =
       Inr (app_A\<lparr>actions := [PreventDefault, OpenExternal foreign_link]\<rparr>)"
proof -
  let ?p = "\<lparr>protocol = ''https:'', host = ''a.example.com'', pathname = ''/api/v4/public/files/x''\<rparr>"
  let ?q = "\<lparr>protocol = ''https:'', host = ''b.example.com'', pathname = ''/x''\<rparr>"
  have p: "parseURL urlUtils_example public_link = Some ?p"
    and q: "parseURL urlUtils_example foreign_link = Some ?q"
    by (simp_all add: urlUtils_example_def split_public_link split_foreign_link)
  have v: "isValidURI urlUtils_example public_link" "isValidURI urlUtils_example foreign_link"
    by (simp_all add: urlUtils_example_def split_public_link split_foreign_link)
  have g: "getServer urlUtils_example ?p (teams app_A) = Some server_A"
    "getServer urlUtils_example ?q (teams app_A) = None"
    by (simp_all add: urlUtils_example_def app_A_def app_start_def server_A_def)
  have nd: "protocol ?p \<noteq> ''devtools:''" "protocol ?q \<noteq> ''devtools:''" by simp_all
  have h: "protocol ?p = ''http:'' \<or> protocol ?p = ''https:'' \<or> protocol ?p = schemeProtocol (scheme app_A)"
    "protocol ?q = ''http:'' \<or> protocol ?q = ''https:'' \<or> protocol ?q = schemeProtocol (scheme app_A)"
    by simp_all
  note a = public_and_help_links_open_externally [OF p nd(1) v(1) h(1), of "''x''"]
  note b = public_and_help_links_open_externally [OF q nd(2) v(2) h(2), of "''x''"]
  have m: "publicFilesMatch ''/api/v4/public/files/x''" using a by simp
  have 1: "newWindow urlUtils_example public_link app_A =
       Inr (app_A\<lparr>actions := actions app_A @ [PreventDefault, OpenExternal public_link]\<rparr>)"
    using a m by simp
  have 2: "newWindow urlUtils_example foreign_link app_A =
       Inr (app_A\<lparr>actions := actions app_A @ [PreventDefault, OpenExternal foreign_link]\<rparr>)"
    using b g(2) by simp
  have e: "actions app_A = []" by (simp add: app_A_def app_start_def)
  show ?thesis using p q v g m 1 2 e by simp
qed

text \<open>
  C8 as stated is about every request whose path matches. The protocol is checked first:
  a valid \<open>ftp:\<close> link with the path \<open>/help/x\<close> goes to the protocol dialog and is
  not opened in the browser.
\<close>

theorem ftp_help_link_goes_to_dialog:
  "parseURL urlUtils_example ftp_help_link =
     Some \<lparr>protocol = ''ftp:'', host = ''a.example.com'', pathname = ''/help/x''\<rparr>
   \<and> helpMatch ''/help/x''
   \<and> isValidURI urlUtils_example ftp_help_link
   \<and> newWindow urlUtils_example ftp_help_link app_A =
       Inr (app_A\<lparr>actions := [PreventDefault, HandleDialogEvent ''ftp:'' ftp_help_link]\<rparr>)"
  by (simp add: urlUtils_example_def split_ftp_help_link newWindow_def helpMatch_def act_def
      schemeProtocol_def app_A_def app_start_def)

section \<open>The popup window\<close>

lemma popupInvariant_None: "popupWindow a = None \<Longrightarrow> popupInvariant a = (windows a = [])"
  by (simp add: popupInvariant_def)

lemma popupInvariant_Some:
  "popupWindow a = Some i \<Longrightarrow> popupInvariant a = (\<exists>b. windows a = [b] \<and> winId b = i \<and> \<not> closed b)"
  by (auto simp: popupInvariant_def split: list.splits)

lemma inv_act: "popupInvariant (act x a) = popupInvariant a"
  by (simp add: popupInvariant_def act_def split: option.splits)

lemma inv_popupLoadURL:
  assumes "popupInvariant a" and "popupLoadURL target ua a = Inr a'"
  shows "popupInvariant a' \<and> length (windows a') = length (windows a) \<and> popupWindow a' = popupWindow a
         \<and> nextWindow a' = nextWindow a"
proof -
  obtain i where i: "popupWindow a = Some i"
    using assms(2) by (cases "popupWindow a") (auto simp: popupLoadURL_def)
  then obtain b where b: "windows a = [b]" "winId b = i" "\<not> closed b"
    using assms(1) by (auto simp: popupInvariant_Some)
  have "a' = (act (PopupLoadURL i target ua) a)\<lparr>windows := [b\<lparr>getURL := target\<rparr>]\<rparr>"
    using assms(2) i b by (simp add: popupLoadURL_def findWindow_def)
  then show ?thesis using i b by (simp add: popupInvariant_def act_def)
qed

lemma inv_newBrowserWindow:
  "windows a = [] \<Longrightarrow> popupInvariant (newBrowserWindow a)"
  by (simp add: newBrowserWindow_def popupInvariant_def act_def)

lemma popupMissing_inv: "popupInvariant a \<Longrightarrow> popupMissing a = (popupWindow a = None)"
  by (cases "popupWindow a") (auto simp: popupMissing_def popupInvariant_Some findWindow_def)

lemma inv_openPopup:
  assumes "popupInvariant a" and "openPopup u srv p target a = Inr a'"
  shows "popupInvariant a'"
proof (cases "isPluginUrl u (url srv) p \<or> isManagedResource u (url srv) p")
  case False
  then show ?thesis using assms by (simp add: openPopup_def)
next
  case True
  let ?a1 = "if popupMissing a then newBrowserWindow a else a"
  have "popupInvariant ?a1"
    using assms(1) popupMissing_inv [OF assms(1)]
    by (auto simp: popupInvariant_None intro: inv_newBrowserWindow)
  moreover obtain ua where "popupLoadURL target ua ?a1 = Inr a'"
    using assms(2) True by (auto simp: openPopup_def Let_def split: if_splits)
  ultimately show ?thesis using inv_popupLoadURL by blast
qed

lemma inv_newWindow:
  assumes "popupInvariant a" and "newWindow u target a = Inr a'"
  shows "popupInvariant a'"
proof -
  obtain p where p: "parseURL u target = Some p"
    using assms(2) by (cases "parseURL u target") (auto simp: newWindow_def)
  have "a' = a \<or> a' = act PreventDefault a
        \<or> a' = act (HandleDialogEvent (protocol p) target) (act PreventDefault a)
        \<or> a' = act (OpenExternal target) (act PreventDefault a)
        \<or> (\<exists>srv. openPopup u srv p target (act PreventDefault a) = Inr a')"
    using assms(2) p unfolding newWindow_def
    by (auto simp: Let_def split: if_splits option.splits sum.splits bool.splits)
  then show ?thesis
    using assms(1) inv_openPopup [of "act PreventDefault a" u _ p target a']
    by (auto simp: inv_act)
qed

lemma inv_step:
  assumes "popupInvariant a" and "app_step u e a = Inr a'"
  shows "popupInvariant a'"
proof (cases e)
  case (NewWindow target)
  then show ?thesis using assms inv_newWindow by auto
next
  case (ReadyToShow i)
  show ?thesis
  proof (cases "popupWindow a")
    case None
    then show ?thesis
      using assms ReadyToShow by (auto simp: popupInvariant_None findWindow_def)
  next
    case (Some j)
    then obtain b where b: "windows a = [b]" "winId b = j" "\<not> closed b"
      using assms(1) by (auto simp: popupInvariant_Some)
    then show ?thesis
      using assms(2) ReadyToShow Some
      by (auto simp: findWindow_def popupInvariant_def act_def split: if_splits)
  qed
next
  case (Navigated i target)
  show ?thesis
  proof (cases "popupWindow a")
    case None
    then show ?thesis
      using assms Navigated by (auto simp: popupInvariant_None)
  next
    case (Some j)
    then obtain b where b: "windows a = [b]" "winId b = j" "\<not> closed b"
      using assms(1) by (auto simp: popupInvariant_Some)
    then show ?thesis
      using assms(2) Navigated Some by (auto simp: popupInvariant_def)
  qed
next
  case (Closed i)
  show ?thesis
  proof (cases "popupWindow a")
    case None
    then show ?thesis
      using assms Closed by (auto simp: popupInvariant_None findWindow_def)
  next
    case (Some j)
    then obtain b where b: "windows a = [b]" "winId b = j" "\<not> closed b"
      using assms(1) by (auto simp: popupInvariant_Some)
    then show ?thesis
      using assms(2) Closed Some
      by (auto simp: findWindow_def popupInvariant_def split: if_splits)
  qed
qed

lemma inv_run:
  "popupInvariant a \<Longrightarrow> app_run u evs a = Inr a' \<Longrightarrow> popupInvariant a'"
proof (induction evs arbitrary: a)
  case Nil
  then show ?case by simp
next
  case (Cons e evs)
  then obtain a1 where "app_step u e a = Inr a1" and "app_run u evs a1 = Inr a'"
    by (auto split: sum.splits)
  then show ?case using Cons inv_step by blast
qed

lemma inv_at_most_one: "popupInvariant a \<Longrightarrow> length (windows a) \<le> 1"
  by (cases "popupWindow a") (auto simp: popupInvariant_None popupInvariant_Some)

lemma inv_start: "popupInvariant (app_start ts sc pf)"
  by (simp add: popupInvariant_def app_start_def)

lemma newWindow_to_popup:
  assumes "parseURL u target = Some p" and "protocol p \<noteq> ''devtools:''" and "isValidURI u target"
    and "protocol p = ''http:'' \<or> protocol p = ''https:'' \<or> protocol p = schemeProtocol (scheme a)"
    and "getServer u p (teams a) = Some srv"
    and "\<not> publicFilesMatch (pathname p)" and "\<not> helpMatch (pathname p)"
    and "\<not> isTeamUrl u (url srv) p True" and "\<not> isAdminUrl u (url srv) p"
  shows "newWindow u target a =
     (case popupShowing target (act PreventDefault a) of
        Inl e \<Rightarrow> Inl e
      | Inr True \<Rightarrow> Inr (act PreventDefault a)
      | Inr False \<Rightarrow> openPopup u srv p target (act PreventDefault a))"
  using assms unfolding newWindow_def
  by (auto simp: Let_def act_def split: sum.splits bool.splits)

lemma app_A_popup_run:
  "app_run urlUtils_example [NewWindow plugin_link, ReadyToShow 0] app_A = Inr app_A_popup"
  by (simp add: urlUtils_example_def splitURL_def plugin_link_def app_A_popup_def
      app_A_def app_start_def server_A_def newWindow_def schemeProtocol_def helpMatch_def
      publicFilesMatch.simps popupShowing_def openPopup_def popupMissing_def newBrowserWindow_def
      popupLoadURL_def popupUserAgent_def findWindow_def act_def Let_def)

lemma split_plugin_link:
  "splitURL plugin_link = Some \<lparr>protocol = ''https:'', host = ''a.example.com'', pathname = ''/plugins/jitsi/x''\<rparr>"
  by (simp add: splitURL_def plugin_link_def)

lemma split_other_plugin_link:
  "splitURL other_plugin_link = Some \<lparr>protocol = ''https:'', host = ''a.example.com'', pathname = ''/plugins/zoom/y''\<rparr>"
  by (simp add: splitURL_def other_plugin_link_def)

lemma no_public_files:
  "\<not> publicFilesMatch ''/plugins/jitsi/x''" "\<not> publicFilesMatch ''/plugins/zoom/y''"
  by (subst publicFilesMatch.simps, simp)+

lemma plugin_links_pass:
  assumes "p = \<lparr>protocol = ''https:'', host = ''a.example.com'', pathname = ''/plugins/jitsi/x''\<rparr>
         \<or> p = \<lparr>protocol = ''https:'', host = ''a.example.com'', pathname = ''/plugins/zoom/y''\<rparr>"
    and "teams a = [server_A]" and "platform a = ''linux''"
  shows "protocol p \<noteq> ''devtools:''"
    and "protocol p = ''http:'' \<or> protocol p = ''https:'' \<or> protocol p = schemeProtocol (scheme a)"
    and "getServer urlUtils_example p (teams a) = Some server_A"
    and "\<not> publicFilesMatch (pathname p)" and "\<not> helpMatch (pathname p)"
    and "\<not> isTeamUrl urlUtils_example (url server_A) p True"
    and "\<not> isAdminUrl urlUtils_example (url server_A) p"
    and "isPluginUrl urlUtils_example (url server_A) p \<or> isManagedResource urlUtils_example (url server_A) p"
    and "Some nixUA = (if isManagedResource urlUtils_example (url server_A) p then None
                        else popupUserAgent (platform a))"
  using assms no_public_files
  by (auto simp: urlUtils_example_def server_A_def helpMatch_def popupUserAgent_def)

text \<open>
  C6, as the code has it. Whatever requests and window events the process has seen, at
  most one popup window is open. For a request that reaches the popup policy (a valid
  address of a configured server with the protocol \<open>http:\<close>, \<open>https:\<close> or the
  application's own, not a public-files, help, team or admin page) and is a plugin or
  managed-resource page: with no popup, exactly one window is created and loaded with the
  address, and it is shown when it becomes ready; with the popup open at that very
  address nothing is created or loaded; with the popup open at another address the same
  window is loaded with the new one, and no window is created. Closing the popup clears
  the variable, so the next request creates a window again.
\<close>

theorem popup_is_created_once_and_reused:
  assumes "parseURL u target = Some p" and "protocol p \<noteq> ''devtools:''" and "isValidURI u target"
    and "protocol p = ''http:'' \<or> protocol p = ''https:'' \<or> protocol p = schemeProtocol (scheme a)"
    and "getServer u p (teams a) = Some srv"
    and "\<not> publicFilesMatch (pathname p)" and "\<not> helpMatch (pathname p)"
    and "\<not> isTeamUrl u (url srv) p True" and "\<not> isAdminUrl u (url srv) p"
    and "isPluginUrl u (url srv) p \<or> isManagedResource u (url srv) p"
    and "popupInvariant a"
    and "ua = (if isManagedResource u (url srv) p then None else popupUserAgent (platform a))"
  shows "(\<forall>evs a'. app_run u' evs (app_start ts sc pf) = Inr a' \<longrightarrow>
            popupInvariant a' \<and> length (windows a') \<le> 1)
       \<and> (popupWindow a = None \<longrightarrow>
            (\<exists>a' a''. newWindow u target a = Inr a'
               \<and> popupWindow a' = Some (nextWindow a)
               \<and> windows a' = [\<lparr>winId = nextWindow a, closed = False, getURL = target,
                                  visible = False, readyPending = True\<rparr>]
               \<and> actions a' = actions a @ [PreventDefault, NewBrowserWindow (nextWindow a),
                                              PopupLoadURL (nextWindow a) target ua]
               \<and> app_step u (ReadyToShow (nextWindow a)) a' = Inr a''
               \<and> windows a'' = [\<lparr>winId = nextWindow a, closed = False, getURL = target,
                                   visible = True, readyPending = False\<rparr>]
               \<and> actions a'' = actions a' @ [Show (nextWindow a)]))
       \<and> (\<forall>i b. popupWindow a = Some i \<and> windows a = [b] \<and> getURL b = target \<longrightarrow>
            newWindow u target a = Inr (a\<lparr>actions := actions a @ [PreventDefault]\<rparr>))
       \<and> (\<forall>i b. popupWindow a = Some i \<and> windows a = [b] \<and> getURL b \<noteq> target \<longrightarrow>
            newWindow u target a =
              Inr (a\<lparr>actions := actions a @ [PreventDefault, PopupLoadURL i target ua],
                     windows := [b\<lparr>getURL := target\<rparr>]\<rparr>))
       \<and> (\<forall>i. popupWindow a = Some i \<longrightarrow>
            (\<exists>a'. app_step u (Closed i) a = Inr a' \<and> popupWindow a' = None \<and> windows a' = []))"
proof (intro conjI allI impI)
  fix evs a'
  assume "app_run u' evs (app_start ts sc pf) = Inr a'"
  then have "popupInvariant a'" using inv_run [OF inv_start] by blast
  then show "popupInvariant a'" and "length (windows a') \<le> 1"
    using inv_at_most_one by auto
next
  assume n: "popupWindow a = None"
  then have e: "windows a = []" using assms(11) by (simp add: popupInvariant_None)
  have "popupShowing target (act PreventDefault a) = Inr False"
    using n by (simp add: popupShowing_def act_def)
  then have nw: "newWindow u target a = openPopup u srv p target (act PreventDefault a)"
    using newWindow_to_popup [OF assms(1-9)] by simp
  let ?i = "nextWindow a"
  let ?a' = "a\<lparr>popupWindow := Some ?i,
               windows := [\<lparr>winId = ?i, closed = False, getURL = target, visible = False,
                            readyPending = True\<rparr>],
               nextWindow := Suc ?i,
               actions := actions a @ [PreventDefault, NewBrowserWindow ?i, PopupLoadURL ?i target ua]\<rparr>"
  have 1: "newWindow u target a = Inr ?a'"
    using assms(10,12) n e unfolding nw
    by (auto simp: openPopup_def popupMissing_def act_def newBrowserWindow_def popupLoadURL_def
        findWindow_def Let_def)
  let ?a'' = "?a'\<lparr>actions := actions ?a' @ [Show ?i],
                      windows := [\<lparr>winId = ?i, closed = False, getURL = target, visible = True,
                                   readyPending = False\<rparr>]\<rparr>"
  have 2: "app_step u (ReadyToShow ?i) ?a' = Inr ?a''"
    by (simp add: findWindow_def act_def)
  show "\<exists>a' a''. newWindow u target a = Inr a'
               \<and> popupWindow a' = Some (nextWindow a)
               \<and> windows a' = [\<lparr>winId = nextWindow a, closed = False, getURL = target,
                                  visible = False, readyPending = True\<rparr>]
               \<and> actions a' = actions a @ [PreventDefault, NewBrowserWindow (nextWindow a),
                                              PopupLoadURL (nextWindow a) target ua]
               \<and> app_step u (ReadyToShow (nextWindow a)) a' = Inr a''
               \<and> windows a'' = [\<lparr>winId = nextWindow a, closed = False, getURL = target,
                                   visible = True, readyPending = False\<rparr>]
               \<and> actions a'' = actions a' @ [Show (nextWindow a)]"
    by (rule exI [of _ ?a'], rule exI [of _ ?a'']) (simp add: 1 2 del: app_step.simps)
next
  fix i b
  assume h: "popupWindow a = Some i \<and> windows a = [b] \<and> getURL b = target"
  then have b: "winId b = i" "\<not> closed b"
    using assms(11) by (auto simp: popupInvariant_Some)
  have "popupShowing target (act PreventDefault a) = Inr True"
    using h b by (simp add: popupShowing_def act_def findWindow_def)
  then show "newWindow u target a = Inr (a\<lparr>actions := actions a @ [PreventDefault]\<rparr>)"
    using newWindow_to_popup [OF assms(1-9)] by (simp add: act_def)
next
  fix i b
  assume h: "popupWindow a = Some i \<and> windows a = [b] \<and> getURL b \<noteq> target"
  then have b: "winId b = i" "\<not> closed b"
    using assms(11) by (auto simp: popupInvariant_Some)
  have "popupShowing target (act PreventDefault a) = Inr False"
    using h b by (simp add: popupShowing_def act_def findWindow_def)
  then have nw: "newWindow u target a = openPopup u srv p target (act PreventDefault a)"
    using newWindow_to_popup [OF assms(1-9)] by simp
  show "newWindow u target a =
              Inr (a\<lparr>actions := actions a @ [PreventDefault, PopupLoadURL i target ua],
                     windows := [b\<lparr>getURL := target\<rparr>]\<rparr>)"
    using assms(10,12) h b unfolding nw
    by (auto simp: openPopup_def popupMissing_def act_def popupLoadURL_def findWindow_def Let_def)
next
  fix i
  assume h: "popupWindow a = Some i"
  then obtain b where b: "windows a = [b]" "winId b = i"
    using assms(11) by (auto simp: popupInvariant_Some)
  then show "\<exists>a'. app_step u (Closed i) a = Inr a' \<and> popupWindow a' = None \<and> windows a' = []"
    by (simp add: findWindow_def)
qed

theorem popup_is_created_once_and_reused_witness:
  "popupInvariant app_A \<and> popupWindow app_A = None
   \<and> (\<exists>a' a''. newWindow urlUtils_example plugin_link app_A = Inr a'
          \<and> popupWindow a' = Some 0
          \<and> windows a' = [\<lparr>winId = 0, closed = False, getURL = plugin_link, visible = False,
                             readyPending = True\<rparr>]
          \<and> actions a' = [PreventDefault, NewBrowserWindow 0, PopupLoadURL 0 plugin_link (Some nixUA)]
          \<and> app_step urlUtils_example (ReadyToShow 0) a' = Inr a''
          \<and> windows a'' = [\<lparr>winId = 0, closed = False, getURL = plugin_link, visible = True,
                              readyPending = False\<rparr>]
          \<and> actions a'' = actions a' @ [Show 0])
   \<and> app_run urlUtils_example [NewWindow plugin_link, ReadyToShow 0] app_A = Inr app_A_popup
   \<and> popupInvariant app_A_popup \<and> length (windows app_A_popup) \<le> 1
   \<and> newWindow urlUtils_example plugin_link app_A_popup =
       Inr (app_A_popup\<lparr>actions := actions app_A_popup @ [PreventDefault]\<rparr>)
   \<and> newWindow urlUtils_example other_plugin_link app_A_popup =
       Inr (app_A_popup\<lparr>actions := actions app_A_popup
                                       @ [PreventDefault, PopupLoadURL 0 other_plugin_link (Some nixUA)],
              windows := [\<lparr>winId = 0, closed = False, getURL = other_plugin_link, visible = True,
                           readyPending = False\<rparr>]\<rparr>)
   \<and> (\<exists>a'. app_step urlUtils_example (Closed 0) app_A_popup = Inr a' \<and> popupWindow a' = None
          \<and> windows a' = [])"
proof -
  let ?p = "\<lparr>protocol = ''https:'', host = ''a.example.com'', pathname = ''/plugins/jitsi/x''\<rparr>"
  let ?q = "\<lparr>protocol = ''https:'', host = ''a.example.com'', pathname = ''/plugins/zoom/y''\<rparr>"
  have A: "teams app_A = [server_A]" "platform app_A = ''linux''"
    "popupWindow app_A = None" "nextWindow app_A = 0" "actions app_A = []"
    "app_A = app_start [server_A] (Some ''mattermost'') ''linux''"
    by (simp_all add: app_A_def app_start_def)
  have B: "teams app_A_popup = [server_A]" "platform app_A_popup = ''linux''"
    "popupWindow app_A_popup = Some 0"
    "windows app_A_popup = [\<lparr>winId = 0, closed = False, getURL = plugin_link, visible = True,
                              readyPending = False\<rparr>]"
    by (simp_all add: app_A_popup_def app_A_def app_start_def)
  have iA: "popupInvariant app_A" unfolding A(6) by (rule inv_start)
  have iB: "popupInvariant app_A_popup" using B by (simp add: popupInvariant_def)
  have ne: "plugin_link \<noteq> other_plugin_link"
    by (simp add: plugin_link_def other_plugin_link_def)
  have pp: "parseURL urlUtils_example plugin_link = Some ?p"
    "parseURL urlUtils_example other_plugin_link = Some ?q"
    "isValidURI urlUtils_example plugin_link" "isValidURI urlUtils_example other_plugin_link"
    by (simp_all add: urlUtils_example_def split_plugin_link split_other_plugin_link)
  have dp: "?p = ?p \<or> ?p = ?q" and dq: "?q = ?p \<or> ?q = ?q" by simp_all
  note pa = plugin_links_pass [OF dp A(1,2)]
  note pb = plugin_links_pass [OF dp B(1,2)]
  note qb = plugin_links_pass [OF dq B(1,2)]
  note t1 = popup_is_created_once_and_reused [OF pp(1) pa(1) pp(3) pa(2-8) iA pa(9), where u' = urlUtils_example
      and ts = "[server_A]" and sc = "Some ''mattermost''" and pf = "''linux''"]
  note t2 = popup_is_created_once_and_reused [OF pp(1) pb(1) pp(3) pb(2-8) iB pb(9), where u' = urlUtils_example
      and ts = "[server_A]" and sc = "Some ''mattermost''" and pf = "''linux''"]
  note t3 = popup_is_created_once_and_reused [OF pp(2) qb(1) pp(4) qb(2-8) iB qb(9), where u' = urlUtils_example
      and ts = "[server_A]" and sc = "Some ''mattermost''" and pf = "''linux''"]
  have 1: "\<exists>a' a''. newWindow urlUtils_example plugin_link app_A = Inr a'
          \<and> popupWindow a' = Some 0
          \<and> windows a' = [\<lparr>winId = 0, closed = False, getURL = plugin_link, visible = False,
                             readyPending = True\<rparr>]
          \<and> actions a' = [PreventDefault, NewBrowserWindow 0, PopupLoadURL 0 plugin_link (Some nixUA)]
          \<and> app_step urlUtils_example (ReadyToShow 0) a' = Inr a''
          \<and> windows a'' = [\<lparr>winId = 0, closed = False, getURL = plugin_link, visible = True,
                              readyPending = False\<rparr>]
          \<and> actions a'' = actions a' @ [Show 0]"
    using t1 A(3,4,5) by (simp del: app_step.simps)
  have 2: "length (windows app_A_popup) \<le> 1"
    using t1 app_A_popup_run A(6) by (simp del: app_run.simps)
  have 3: "newWindow urlUtils_example plugin_link app_A_popup =
       Inr (app_A_popup\<lparr>actions := actions app_A_popup @ [PreventDefault]\<rparr>)"
    using t2 B(3,4) by simp
  have 4: "newWindow urlUtils_example other_plugin_link app_A_popup =
       Inr (app_A_popup\<lparr>actions := actions app_A_popup
                                       @ [PreventDefault, PopupLoadURL 0 other_plugin_link (Some nixUA)],
              windows := [\<lparr>winId = 0, closed = False, getURL = other_plugin_link, visible = True,
                           readyPending = False\<rparr>]\<rparr>)"
    using t3 B(3,4) ne by simp
  have 5: "\<exists>a'. app_step urlUtils_example (Closed 0) app_A_popup = Inr a' \<and> popupWindow a' = None
          \<and> windows a' = []"
    using t2 B(3) by (simp del: app_step.simps)
  show ?thesis using iA A(3) 1 app_A_popup_run iB 2 3 4 5 by blast
qed

text \<open>
  C6 as stated has the popup recreated for a different address. It is not: after a second
  request, for another plugin page, the window opened by the first is still the popup,
  now at the new address, and \<open>new BrowserWindow\<close> has run once.
\<close>

theorem popup_is_not_recreated:
  "app_run urlUtils_example [NewWindow plugin_link, ReadyToShow 0, NewWindow other_plugin_link] app_A =
     Inr (app_A\<lparr>popupWindow := Some 0,
            windows := [\<lparr>winId = 0, closed = False, getURL = other_plugin_link, visible = True,
                         readyPending = False\<rparr>],
            nextWindow := 1,
            actions := [PreventDefault, NewBrowserWindow 0, PopupLoadURL 0 plugin_link (Some nixUA),
                        Show 0, PreventDefault, PopupLoadURL 0 other_plugin_link (Some nixUA)]\<rparr>)"
  by (simp add: urlUtils_example_def splitURL_def plugin_link_def other_plugin_link_def
      app_A_def app_start_def server_A_def newWindow_def schemeProtocol_def helpMatch_def
      publicFilesMatch.simps popupShowing_def openPopup_def popupMissing_def newBrowserWindow_def
      popupLoadURL_def popupUserAgent_def findWindow_def act_def Let_def)

section \<open>When the new-window listener raises\<close>

text \<open>
  The listener reads \<open>parsedURL.protocol\<close> before it checks anything. In every state
  the process can be in, it raises exactly when the parser hands back no object.
\<close>

lemma popupShowing_total:
  "popupInvariant a \<Longrightarrow> \<exists>b. popupShowing target a = Inr b"
  by (cases "popupWindow a") (auto simp: popupShowing_def popupInvariant_Some findWindow_def)

lemma popupLoadURL_total:
  "popupInvariant a \<Longrightarrow> popupWindow a \<noteq> None \<Longrightarrow> \<exists>a'. popupLoadURL target ua a = Inr a'"
  by (cases "popupWindow a") (auto simp: popupLoadURL_def popupInvariant_Some findWindow_def)

lemma openPopup_total:
  assumes "popupInvariant a"
  shows "\<exists>a'. openPopup u srv p target a = Inr a'"
proof (cases "popupWindow a")
  case None
  then have e: "windows a = []" using assms by (simp add: popupInvariant_None)
  have "popupInvariant (newBrowserWindow a)" using e by (rule inv_newBrowserWindow)
  moreover have "popupWindow (newBrowserWindow a) \<noteq> None"
    by (simp add: newBrowserWindow_def act_def)
  ultimately have "\<exists>a'. popupLoadURL target ua (newBrowserWindow a) = Inr a'" for ua
    by (rule popupLoadURL_total)
  then show ?thesis
    using None by (simp add: openPopup_def popupMissing_def Let_def)
next
  case (Some i)
  then have "\<not> popupMissing a" using popupMissing_inv [OF assms] by simp
  moreover have "\<exists>a'. popupLoadURL target ua a = Inr a'" for ua
    using assms Some by (intro popupLoadURL_total) simp_all
  ultimately show ?thesis by (simp add: openPopup_def Let_def)
qed

lemma newWindow_raises_iff:
  assumes "popupInvariant a"
  shows "(\<exists>e. newWindow u target a = Inl e) \<longleftrightarrow> parseURL u target = None"
proof (cases "parseURL u target")
  case None
  then show ?thesis by (simp add: newWindow_def)
next
  case (Some p)
  have i: "popupInvariant (act PreventDefault a)" using assms by (simp add: inv_act)
  obtain b where b: "popupShowing target (act PreventDefault a) = Inr b"
    using popupShowing_total [OF i] by blast
  have o: "\<exists>a'. openPopup u srv p target (act PreventDefault a) = Inr a'" for srv
    using openPopup_total [OF i] .
  have "\<exists>a'. newWindow u target a = Inr a'"
    using Some b o unfolding newWindow_def
    by (cases b) (auto simp: Let_def split: option.splits)
  then show ?thesis using Some by auto
qed

end
